theory Spec2Isabelle
  imports
    Complex_Main
    "HOL-Library.Sublist"
    "HOL-Library.Char_ord"
    "HOL-Library.List_Lexorder"
    "HOL-Library.Product_Lexorder"
begin

section \<open>Schema registry and constraint catalog (ingest/schema.py)\<close>

datatype SchemaType = RAW | NORMALIZED

definition RAW_REQUIRED_COLUMNS :: "string list" where
  "RAW_REQUIRED_COLUMNS = [''site_no'', ''sample_datetime'', ''value'', ''variable'', ''unit'']"

text \<open>A Python dict literal, kept as an association list in source order.\<close>

definition RAW_DTYPES :: "(string \<times> string) list" where
  "RAW_DTYPES =
    [(''site_no'', ''string''),
     (''sample_datetime'', ''datetime64[ns]''),
     (''value'', ''float64''),
     (''variable'', ''string''),
     (''unit'', ''string''),
     (''qualifier_flag'', ''string''),
     (''sdl'', ''float64''),
     (''mdl'', ''float64''),
     (''variable_code'', ''string''),
     (''variable_fr'', ''string''),
     (''qa_status'', ''string''),
     (''sample_id'', ''string'')]"

definition NORMALIZED_REQUIRED_COLUMNS :: "string list" where
  "NORMALIZED_REQUIRED_COLUMNS = [''station_id'', ''timestamp'', ''parameter'', ''value'', ''unit'']"

definition NORMALIZED_DTYPES :: "(string \<times> string) list" where
  "NORMALIZED_DTYPES =
    [(''station_id'', ''string''),
     (''timestamp'', ''datetime64[ns]''),
     (''parameter'', ''string''),
     (''value'', ''float64''),
     (''unit'', ''string''),
     (''qualifier'', ''string''),
     (''qa_status'', ''string''),
     (''sample_id'', ''string'')]"

text \<open>Class \<open>DataConstraints\<close>. The two value bounds are the floats \<open>-1000.0\<close> and \<open>1e9\<close>.\<close>

definition MIN_VALUE :: rat where "MIN_VALUE = - 1000"
definition MAX_VALUE :: rat where "MAX_VALUE = 1000000000"
definition MIN_YEAR :: int where "MIN_YEAR = 1900"
definition MAX_YEAR :: int where "MAX_YEAR = 2100"
definition MAX_STATION_ID_LENGTH :: nat where "MAX_STATION_ID_LENGTH = 50"

definition VALID_QUALIFIERS :: "string list" where
  "VALID_QUALIFIERS = [''<'', ''>'', ''~'', ''E'', ''U'', ''nan'']"

definition VALID_QA_STATUS :: "string list" where
  "VALID_QA_STATUS = [''P'', ''V'', ''R'', ''E'', ''nan'']"


section \<open>Tables\<close>

text \<open>
  The validator works on a pandas DataFrame. What it reads from one is modelled here.

  A timestamp is a pair (calendar year, nanoseconds elapsed since the start of that year),
  ordered lexicographically, which is the chronological order of time-zone-naive timestamps.
  A cell is a null marker (\<open>None\<close>, \<open>NaN\<close>, \<open>NaT\<close>), a finite number, a text or a
  timestamp. Numbers are rationals: the passes only compare them and count them.
  A column (\<open>Series\<close>) has a dtype label, as \<open>str(series.dtype)\<close> prints it, and one cell
  per row. A frame has the length of its index and its columns in order; in a frame built
  by pandas every column has \<open>index_len\<close> cells, and the passes address columns by name, so
  names are taken to be distinct texts.
\<close>

type_synonym timestamp = "int \<times> nat"

definition year :: "timestamp \<Rightarrow> int" where
  "year t = fst t"

datatype cell = Null | Num rat | Str string | Time timestamp

record Series =
  dtype :: string
  cells :: "cell list"

record DataFrame =
  index_len :: nat
  columns :: "(string \<times> Series) list"

text \<open>\<open>df.empty\<close>: some axis has length zero.\<close>

definition df_empty :: "DataFrame \<Rightarrow> bool" where
  "df_empty df = (index_len df = 0 \<or> columns df = [])"

definition column_names :: "DataFrame \<Rightarrow> string list" where
  "column_names df = map fst (columns df)"

text \<open>\<open>col in df.columns\<close> and \<open>df[col]\<close>.\<close>

definition has_column :: "DataFrame \<Rightarrow> string \<Rightarrow> bool" where
  "has_column df col = (col \<in> set (column_names df))"

definition get_column :: "DataFrame \<Rightarrow> string \<Rightarrow> Series option" where
  "get_column df col = map_of (columns df) col"

definition isna :: "cell \<Rightarrow> bool" where
  "isna c = (c = Null)"

definition dropna :: "cell list \<Rightarrow> cell list" where
  "dropna xs = filter (\<lambda>c. \<not> isna c) xs"

text \<open>\<open>series.isna().sum()\<close>\<close>

definition isna_sum :: "cell list \<Rightarrow> nat" where
  "isna_sum xs = length (filter isna xs)"

text \<open>\<open>series.unique()\<close>: the distinct values in order of first appearance.\<close>

fun unique_from :: "'a list \<Rightarrow> 'a list \<Rightarrow> 'a list" where
  "unique_from seen [] = []"
| "unique_from seen (x # xs) =
     (if x \<in> set seen then unique_from seen xs else x # unique_from (x # seen) xs)"

definition unique :: "'a list \<Rightarrow> 'a list" where
  "unique xs = unique_from [] xs"

text \<open>\<open>series.nunique()\<close>: the number of distinct non-null values.\<close>

definition nunique :: "cell list \<Rightarrow> nat" where
  "nunique xs = length (unique (dropna xs))"

text \<open>
  \<open>df.duplicated(subset=...)\<close> with the default \<open>keep='first'\<close>: a row is flagged when a
  row before it has the same key. Nulls are equal to each other there.
\<close>

fun duplicated_from :: "'a list \<Rightarrow> 'a list \<Rightarrow> bool list" where
  "duplicated_from seen [] = []"
| "duplicated_from seen (k # ks) = (k \<in> set seen) # duplicated_from (k # seen) ks"

definition duplicated :: "'a list \<Rightarrow> bool list" where
  "duplicated ks = duplicated_from [] ks"

text \<open>The rows of a frame restricted to the columns \<open>id_cols\<close>, which are all present.\<close>

definition row_keys :: "DataFrame \<Rightarrow> string list \<Rightarrow> cell list list" where
  "row_keys df id_cols =
     transpose (map (\<lambda>col. case get_column df col of None \<Rightarrow> [] | Some s \<Rightarrow> cells s) id_cols)"

text \<open>
  What a call reads from outside the table: the clock (\<open>pd.Timestamp.now()\<close>), the order
  in which this interpreter process iterates over a set of texts (it depends on the
  process's hash seed), and the parser behind \<open>pd.to_datetime\<close>, which sees the whole
  column because it infers one format for it, and which is part of the runtime because
  what it makes of a text can depend on the day it runs.
\<close>

record runtime =
  now :: timestamp
  set_iteration :: "string list \<Rightarrow> string list"
  parse_datetime :: "cell list \<Rightarrow> cell \<Rightarrow> timestamp option"

text \<open>
  \<open>pd.to_datetime(series, errors='coerce')\<close>: a null stays null (\<open>NaT\<close>), a timestamp
  stays itself, anything else is parsed, and what does not parse becomes \<open>NaT\<close>.
\<close>

definition to_datetime :: "runtime \<Rightarrow> cell list \<Rightarrow> timestamp option list" where
  "to_datetime rt xs =
     map (\<lambda>c. case c of Null \<Rightarrow> None | Time t \<Rightarrow> Some t | _ \<Rightarrow> parse_datetime rt xs c) xs"

datatype py_error = TypeError | AttributeError

definition and_then :: "py_error + 'a \<Rightarrow> ('a \<Rightarrow> py_error + 'b) \<Rightarrow> py_error + 'b" where
  "and_then x f = (case x of Inl e \<Rightarrow> Inl e | Inr a \<Rightarrow> f a)"


section \<open>Texts\<close>

text \<open>\<open>str.lower()\<close> on the ASCII texts that dtype labels are.\<close>

definition lower_char :: "char \<Rightarrow> char" where
  "lower_char c =
     (case map_of (zip ''ABCDEFGHIJKLMNOPQRSTUVWXYZ'' ''abcdefghijklmnopqrstuvwxyz'') c of
        Some l \<Rightarrow> l
      | None \<Rightarrow> c)"

definition lower :: "string \<Rightarrow> string" where
  "lower s = map lower_char s"

text \<open>\<open>p in s\<close> on texts.\<close>

fun contains :: "string \<Rightarrow> string \<Rightarrow> bool" where
  "contains p [] = (p = [])"
| "contains p (c # s) = (prefix p (c # s) \<or> contains p s)"

text \<open>\<open>sep.join(xs)\<close>\<close>

fun join :: "string \<Rightarrow> string list \<Rightarrow> string" where
  "join sep [] = []"
| "join sep [x] = x"
| "join sep (x # y # ys) = x @ sep @ join sep (y # ys)"


section \<open>Validation results (ingest/validate.py)\<close>

text \<open>
  A message is the text of the f-string that builds it, as the source has it, with the
  values of its replacement fields in order. Numbers are kept as values, not as the digits
  Python prints. A message without fields is its text.
\<close>

datatype arg = AStr string | AInt int | ANum rat | ACells "cell list"

datatype message = Msg string "arg list"

fun template :: "message \<Rightarrow> string" where
  "template (Msg t as) = t"

fun args :: "message \<Rightarrow> arg list" where
  "args (Msg t as) = as"

datatype info_value =
    IInt int
  | IStrs "string list"
  | INullCounts "(string \<times> nat \<times> rat) list"
  | IValueRange rat rat
  | IDateRange timestamp timestamp
  | ICells "cell list"

text \<open>\<open>d[k] = v\<close> on a dict: a key already there keeps its place.\<close>

fun dict_set :: "('k \<times> 'v) list \<Rightarrow> 'k \<Rightarrow> 'v \<Rightarrow> ('k \<times> 'v) list" where
  "dict_set [] k v = [(k, v)]"
| "dict_set ((k', v') # d) k v =
     (if k' = k then (k, v) # d else (k', v') # dict_set d k v)"

text \<open>\<open>d.update(e)\<close>\<close>

definition dict_update :: "('k \<times> 'v) list \<Rightarrow> ('k \<times> 'v) list \<Rightarrow> ('k \<times> 'v) list" where
  "dict_update d e = fold (\<lambda>(k, v) d'. dict_set d' k v) e d"

record ValidationResult =
  is_valid :: bool
  errors :: "message list"
  warnings :: "message list"
  info :: "(string \<times> info_value) list"

text \<open>\<open>ValidationResult(is_valid=True)\<close>\<close>

definition new_result :: ValidationResult where
  "new_result = \<lparr>is_valid = True, errors = [], warnings = [], info = []\<rparr>"

definition add_error :: "ValidationResult \<Rightarrow> message \<Rightarrow> ValidationResult" where
  "add_error r m = r\<lparr>errors := errors r @ [m], is_valid := False\<rparr>"

definition add_warning :: "ValidationResult \<Rightarrow> message \<Rightarrow> ValidationResult" where
  "add_warning r m = r\<lparr>warnings := warnings r @ [m]\<rparr>"

definition add_info :: "ValidationResult \<Rightarrow> string \<Rightarrow> info_value \<Rightarrow> ValidationResult" where
  "add_info r k v = r\<lparr>info := dict_set (info r) k v\<rparr>"


section \<open>The validator\<close>

record DataValidator =
  schema_type :: SchemaType

subsection \<open>Dtype compatibility\<close>

definition dtypes_compatible :: "string \<Rightarrow> string \<Rightarrow> bool" where
  "dtypes_compatible actual0 expected0 =
     (let actual = lower actual0;
          expected = lower expected0
      in if actual = expected then True
         else if expected = ''float64''
                 \<and> actual \<in> set [''float32'', ''float64'', ''int64'', ''int32''] then True
         else if expected = ''string'' \<and> actual \<in> set [''object'', ''string''] then True
         else if contains ''datetime'' expected \<and> contains ''datetime'' actual then True
         else False)"

subsection \<open>validate_schema\<close>

definition required_cols_of :: "DataValidator \<Rightarrow> string list" where
  "required_cols_of self =
     (if schema_type self = RAW then RAW_REQUIRED_COLUMNS else NORMALIZED_REQUIRED_COLUMNS)"

definition expected_dtypes_of :: "DataValidator \<Rightarrow> (string \<times> string) list" where
  "expected_dtypes_of self =
     (if schema_type self = RAW then RAW_DTYPES else NORMALIZED_DTYPES)"

definition check_missing :: "DataValidator \<Rightarrow> DataFrame \<Rightarrow> ValidationResult \<Rightarrow> ValidationResult" where
  "check_missing self df result =
     (let missing_cols = filter (\<lambda>col. \<not> has_column df col) (required_cols_of self)
      in if missing_cols \<noteq> [] then
           add_info
             (add_error result
                (Msg ''Missing required columns: {', '.join(missing_cols)}''
                   [AStr (join '', '' missing_cols)]))
             ''missing_columns'' (IStrs missing_cols)
         else result)"

text \<open>
  \<open>unexpected\<close> is a Python set; joining it and listing it iterate over it in the
  process's order.
\<close>

definition check_unexpected ::
  "DataValidator \<Rightarrow> runtime \<Rightarrow> DataFrame \<Rightarrow> ValidationResult \<Rightarrow> ValidationResult" where
  "check_unexpected self rt df result =
     (let expected_all = map fst (expected_dtypes_of self);
          unexpected = filter (\<lambda>col. col \<notin> set expected_all) (remdups (column_names df))
      in if unexpected \<noteq> [] then
           add_info
             (add_warning result
                (Msg ''Unexpected columns found: {', '.join(unexpected)}''
                   [AStr (join '', '' (set_iteration rt unexpected))]))
             ''unexpected_columns'' (IStrs (set_iteration rt unexpected))
         else result)"

definition dtype_issues_of :: "DataValidator \<Rightarrow> DataFrame \<Rightarrow> string list" where
  "dtype_issues_of self df =
     concat (map (\<lambda>col.
        case map_of (expected_dtypes_of self) col of
          None \<Rightarrow> []
        | Some expected_dtype \<Rightarrow>
            (case get_column df col of
               None \<Rightarrow> []
             | Some s \<Rightarrow>
                 (let actual_dtype = dtype s
                  in if \<not> dtypes_compatible actual_dtype expected_dtype
                     then [col @ '': expected '' @ expected_dtype @ '', got '' @ actual_dtype]
                     else [])))
        (column_names df))"

definition check_dtypes :: "DataValidator \<Rightarrow> DataFrame \<Rightarrow> ValidationResult \<Rightarrow> ValidationResult" where
  "check_dtypes self df result =
     (let dtype_issues = dtype_issues_of self df
      in if dtype_issues \<noteq> [] then
           fold (\<lambda>issue r. add_warning r (Msg ''  - {issue}'' [AStr issue])) dtype_issues
             (add_warning result (Msg ''Data type mismatches found:'' []))
         else result)"

definition validate_schema :: "DataValidator \<Rightarrow> runtime \<Rightarrow> DataFrame \<Rightarrow> ValidationResult" where
  "validate_schema self rt df =
     (let result = new_result
      in if df_empty df then add_error result (Msg ''DataFrame is empty (0 rows)'' [])
         else
           (let result = add_info result ''row_count'' (IInt (int (index_len df)));
                result = add_info result ''column_count'' (IInt (int (length (columns df))));
                result = check_missing self df result;
                result = check_unexpected self rt df result;
                result = check_dtypes self df result
            in result))"

subsection \<open>validate_data_quality\<close>

definition critical_cols_of :: "DataValidator \<Rightarrow> string list" where
  "critical_cols_of self =
     (if schema_type self = NORMALIZED
      then [''timestamp'', ''station_id'', ''parameter'', ''value'']
      else [''sample_datetime'', ''site_no'', ''variable'', ''value''])"

text \<open>
  \<open>null_pct = (null_count / len(df)) * 100\<close> is computed in binary floating point and
  compared with 50 and 10. For a count and a length up to \<open>2^52\<close> both comparisons have
  the outcome they have on the exact quotient, which is what the model computes.
\<close>

definition null_pct_of :: "nat \<Rightarrow> DataFrame \<Rightarrow> rat" where
  "null_pct_of null_count df = (of_nat null_count / of_nat (index_len df)) * 100"

text \<open>One turn of the loop over \<open>critical_cols\<close>; the state is \<open>(result, null_counts)\<close>.\<close>

definition null_check ::
  "DataFrame \<Rightarrow> string \<Rightarrow> ValidationResult \<times> (string \<times> nat \<times> rat) list
     \<Rightarrow> ValidationResult \<times> (string \<times> nat \<times> rat) list" where
  "null_check df col st =
     (case st of (result, null_counts) \<Rightarrow>
        (case get_column df col of
           None \<Rightarrow> (result, null_counts)
         | Some s \<Rightarrow>
             (let null_count = isna_sum (cells s)
              in if null_count > 0 then
                   (let null_pct = null_pct_of null_count df;
                        null_counts = dict_set null_counts col (null_count, null_pct)
                    in if null_pct > 50 then
                         (add_error result
                            (Msg ''Column '{col}' has {null_count:,} null values ({null_pct:.1f}%)''
                               [AStr col, AInt (int null_count), ANum null_pct]),
                          null_counts)
                       else if null_pct > 10 then
                         (add_warning result
                            (Msg ''Column '{col}' has {null_count:,} null values ({null_pct:.1f}%)''
                               [AStr col, AInt (int null_count), ANum null_pct]),
                          null_counts)
                       else (result, null_counts))
                 else (result, null_counts))))"

definition null_analysis :: "DataValidator \<Rightarrow> DataFrame \<Rightarrow> ValidationResult \<Rightarrow> ValidationResult" where
  "null_analysis self df result =
     (case fold (null_check df) (critical_cols_of self) (result, []) of
        (result, null_counts) \<Rightarrow>
          if null_counts \<noteq> [] then add_info result ''null_counts'' (INullCounts null_counts)
          else result)"

fun num_of :: "cell \<Rightarrow> rat option" where
  "num_of (Num x) = Some x"
| "num_of _ = None"

fun str_of :: "cell \<Rightarrow> string option" where
  "str_of (Str x) = Some x"
| "str_of _ = None"

fun time_of :: "cell \<Rightarrow> timestamp option" where
  "time_of (Time x) = Some x"
| "time_of _ = None"

text \<open>
  The value range. When a non-null entry of the column is not a number, Python raises
  \<open>TypeError\<close>: in \<open>min()\<close> when the entries are of several kinds, in the comparison
  with \<open>MIN_VALUE\<close> when they are all texts or all timestamps.
\<close>

definition value_range_check :: "DataFrame \<Rightarrow> ValidationResult \<Rightarrow> py_error + ValidationResult" where
  "value_range_check df result =
     (case get_column df ''value'' of
        None \<Rightarrow> Inr result
      | Some s \<Rightarrow>
          (let non_null_values = dropna (cells s)
           in if length non_null_values > 0 then
                (if \<exists>c \<in> set non_null_values. num_of c = None then Inl TypeError
                 else
                   (case List.map_filter num_of non_null_values of
                      [] \<Rightarrow> Inr result
                    | x # xs \<Rightarrow>
                        (let min_val = fold min xs x;
                             max_val = fold max xs x;
                             result = add_info result ''value_range'' (IValueRange min_val max_val);
                             result =
                               (if min_val < MIN_VALUE then
                                  add_warning result
                                    (Msg ''{count} values below minimum threshold ({self.constraints.MIN_VALUE})''
                                       [AInt (int (length (filter (\<lambda>v. v < MIN_VALUE) (x # xs)))),
                                        ANum MIN_VALUE])
                                else result);
                             result =
                               (if max_val > MAX_VALUE then
                                  add_warning result
                                    (Msg ''{count} values above maximum threshold ({self.constraints.MAX_VALUE})''
                                       [AInt (int (length (filter (\<lambda>v. v > MAX_VALUE) (x # xs)))),
                                        ANum MAX_VALUE])
                                else result)
                         in Inr result)))
              else Inr result))"

definition date_col_of :: "DataValidator \<Rightarrow> string" where
  "date_col_of self =
     (if schema_type self = NORMALIZED then ''timestamp'' else ''sample_datetime'')"

text \<open>\<open>invalid_dates = dates.isna().sum() - df[date_col].isna().sum()\<close>\<close>

definition invalid_dates_of :: "runtime \<Rightarrow> cell list \<Rightarrow> int" where
  "invalid_dates_of rt xs =
     int (length (filter (\<lambda>d. d = None) (to_datetime rt xs))) - int (isna_sum xs)"

text \<open>\<open>valid_dates = dates.dropna()\<close>\<close>

definition valid_dates_of :: "runtime \<Rightarrow> cell list \<Rightarrow> timestamp list" where
  "valid_dates_of rt xs = List.map_filter (\<lambda>d. d) (to_datetime rt xs)"

definition temporal_check ::
  "DataValidator \<Rightarrow> runtime \<Rightarrow> DataFrame \<Rightarrow> ValidationResult \<Rightarrow> ValidationResult" where
  "temporal_check self rt df result =
     (case get_column df (date_col_of self) of
        None \<Rightarrow> result
      | Some s \<Rightarrow>
          (let invalid_dates = invalid_dates_of rt (cells s);
               result =
                 (if invalid_dates > 0 then
                    add_error result
                      (Msg ''{invalid_dates} datetime values could not be parsed'' [AInt invalid_dates])
                  else result);
               valid_dates = valid_dates_of rt (cells s)
           in case valid_dates of
                [] \<Rightarrow> result
              | d # ds \<Rightarrow>
                  (let min_date = fold min ds d;
                       max_date = fold max ds d;
                       result = add_info result ''date_range'' (IDateRange min_date max_date);
                       result =
                         (if year min_date < MIN_YEAR then
                            add_warning result
                              (Msg ''Dates before {self.constraints.MIN_YEAR} found (earliest: {min_date.year})''
                                 [AInt MIN_YEAR, AInt (year min_date)])
                          else result);
                       result =
                         (if year max_date > MAX_YEAR then
                            add_error result
                              (Msg ''Dates after {self.constraints.MAX_YEAR} found (latest: {max_date.year})''
                                 [AInt MAX_YEAR, AInt (year max_date)])
                          else result);
                       future_count = length (filter (\<lambda>t. t > now rt) valid_dates);
                       result =
                         (if future_count > 0 then
                            add_warning result
                              (Msg ''{future_count} timestamps are in the future''
                                 [AInt (int future_count)])
                          else result)
                   in result)))"

definition validate_data_quality ::
  "DataValidator \<Rightarrow> runtime \<Rightarrow> DataFrame \<Rightarrow> py_error + ValidationResult" where
  "validate_data_quality self rt df =
     (let result = new_result
      in if df_empty df then
           Inr (add_error result (Msg ''Cannot validate quality of empty DataFrame'' []))
         else
           and_then (value_range_check df (null_analysis self df result))
             (\<lambda>result. Inr (temporal_check self rt df result)))"

subsection \<open>validate_business_rules\<close>

definition id_cols_of :: "DataValidator \<Rightarrow> string list" where
  "id_cols_of self =
     (if schema_type self = NORMALIZED
      then [''timestamp'', ''station_id'', ''parameter'']
      else [''sample_datetime'', ''site_no'', ''variable''])"

text \<open>\<open>df.duplicated(subset=id_cols).sum()\<close>\<close>

definition duplicate_count_of :: "DataFrame \<Rightarrow> string list \<Rightarrow> nat" where
  "duplicate_count_of df id_cols = length (filter (\<lambda>b. b) (duplicated (row_keys df id_cols)))"

definition duplicate_check :: "DataValidator \<Rightarrow> DataFrame \<Rightarrow> ValidationResult \<Rightarrow> ValidationResult" where
  "duplicate_check self df result =
     (let id_cols = id_cols_of self
      in if list_all (has_column df) id_cols then
           (let duplicate_count = duplicate_count_of df id_cols
            in if duplicate_count > 0 then
                 add_info
                   (add_warning result
                      (Msg ''{duplicate_count} duplicate records found (same timestamp + station + parameter)''
                         [AInt (int duplicate_count)]))
                   ''duplicate_count'' (IInt (int duplicate_count))
               else result)
         else result)"

text \<open>
  The \<open>.str\<close> accessor of an object column raises \<open>AttributeError\<close> unless the non-null
  entries are all texts, or of several kinds, or there is none: it refuses a column of
  numbers and a column of timestamps. Nulls in an object column are \<open>None\<close> or \<open>NaN\<close>.
\<close>

definition str_accessor_ok :: "cell list \<Rightarrow> bool" where
  "str_accessor_ok xs =
     (let vals = dropna xs
      in vals = [] \<or> \<not> (list_all (\<lambda>c. num_of c \<noteq> None) vals \<or> list_all (\<lambda>c. time_of c \<noteq> None) vals))"

text \<open>
  \<open>series.str.len()\<close> gives a length for a text and \<open>NaN\<close> for anything else;
  \<open>max()\<close> skips the \<open>NaN\<close>s and is \<open>NaN\<close> when nothing is left, and then the
  comparison with the bound is false.
\<close>

definition station_col_of :: "DataValidator \<Rightarrow> string" where
  "station_col_of self = (if schema_type self = NORMALIZED then ''station_id'' else ''site_no'')"

definition station_check :: "DataValidator \<Rightarrow> DataFrame \<Rightarrow> ValidationResult \<Rightarrow> py_error + ValidationResult" where
  "station_check self df result =
     (case get_column df (station_col_of self) of
        None \<Rightarrow> Inr result
      | Some s \<Rightarrow>
          (let unique_stations = nunique (cells s);
               result = add_info result ''unique_stations'' (IInt (int unique_stations));
               result =
                 (if unique_stations = 0 then add_error result (Msg ''No unique stations found'' [])
                  else result)
           in if dtype s = ''object'' then
                (if \<not> str_accessor_ok (cells s) then Inl AttributeError
                 else
                   (case map length (List.map_filter str_of (cells s)) of
                      [] \<Rightarrow> Inr result
                    | l # ls \<Rightarrow>
                        (let max_len = fold max ls l
                         in if max_len > MAX_STATION_ID_LENGTH then
                              Inr (add_warning result
                                     (Msg ''Station IDs exceed max length ({max_len} > {self.constraints.MAX_STATION_ID_LENGTH})''
                                        [AInt (int max_len), AInt (int MAX_STATION_ID_LENGTH)]))
                            else Inr result)))
              else Inr result))"

text \<open>
  \<open>sorted(...)\<close> on the non-null distinct values: Python orders texts with texts, numbers
  with numbers and timestamps with timestamps, and raises \<open>TypeError\<close> when it has to
  compare two values of different kinds, which it has to as soon as two kinds are there.
\<close>

definition sorted_cells :: "cell list \<Rightarrow> py_error + cell list" where
  "sorted_cells xs =
     (if list_all (\<lambda>c. str_of c \<noteq> None) xs then Inr (map Str (sort (List.map_filter str_of xs)))
      else if list_all (\<lambda>c. num_of c \<noteq> None) xs then Inr (map Num (sort (List.map_filter num_of xs)))
      else if list_all (\<lambda>c. time_of c \<noteq> None) xs then Inr (map Time (sort (List.map_filter time_of xs)))
      else Inl TypeError)"

definition param_col_of :: "DataValidator \<Rightarrow> string" where
  "param_col_of self = (if schema_type self = NORMALIZED then ''parameter'' else ''variable'')"

definition param_check :: "DataValidator \<Rightarrow> DataFrame \<Rightarrow> ValidationResult \<Rightarrow> py_error + ValidationResult" where
  "param_check self df result =
     (case get_column df (param_col_of self) of
        None \<Rightarrow> Inr result
      | Some s \<Rightarrow>
          (let unique_params = nunique (cells s);
               result = add_info result ''unique_parameters'' (IInt (int unique_params));
               result =
                 (if unique_params = 0 then add_error result (Msg ''No unique parameters found'' [])
                  else result);
               param_list = unique (cells s)
           in and_then (sorted_cells (filter (\<lambda>p. \<not> isna p) param_list))
                (\<lambda>ps. Inr (add_info result ''parameters'' (ICells ps)))))"

text \<open>
  \<open>str(q) not in codes\<close>: a text is its own \<open>str\<close>; what \<open>str\<close> prints for a number or
  a timestamp is none of the codes of the two catalogs.
\<close>

definition unknown_codes :: "string list \<Rightarrow> cell list \<Rightarrow> cell list" where
  "unknown_codes codes xs =
     filter (\<lambda>q. case q of Str s \<Rightarrow> s \<notin> set codes | _ \<Rightarrow> True) (unique (dropna xs))"

definition qual_col_of :: "DataValidator \<Rightarrow> string" where
  "qual_col_of self = (if schema_type self = NORMALIZED then ''qualifier'' else ''qualifier_flag'')"

definition qualifier_check :: "DataValidator \<Rightarrow> DataFrame \<Rightarrow> ValidationResult \<Rightarrow> ValidationResult" where
  "qualifier_check self df result =
     (case get_column df (qual_col_of self) of
        None \<Rightarrow> result
      | Some s \<Rightarrow>
          (let invalid_quals = unknown_codes VALID_QUALIFIERS (cells s)
           in if invalid_quals \<noteq> [] then
                add_warning result
                  (Msg ''Unknown qualifier codes found: {', '.join(map(str, invalid_quals))}''
                     [ACells invalid_quals])
              else result))"

definition qa_status_check :: "DataFrame \<Rightarrow> ValidationResult \<Rightarrow> ValidationResult" where
  "qa_status_check df result =
     (case get_column df ''qa_status'' of
        None \<Rightarrow> result
      | Some s \<Rightarrow>
          (let invalid_qa = unknown_codes VALID_QA_STATUS (cells s)
           in if invalid_qa \<noteq> [] then
                add_warning result
                  (Msg ''Unknown QA status codes found: {', '.join(map(str, invalid_qa))}''
                     [ACells invalid_qa])
              else result))"

definition validate_business_rules :: "DataValidator \<Rightarrow> DataFrame \<Rightarrow> py_error + ValidationResult" where
  "validate_business_rules self df =
     (let result = new_result
      in if df_empty df then Inr result
         else
           and_then (station_check self df (duplicate_check self df result))
             (\<lambda>result. and_then (param_check self df result)
                (\<lambda>result. Inr (qa_status_check df (qualifier_check self df result)))))"

subsection \<open>validate_all\<close>

text \<open>
  The three passes run in order; an exception of one of them leaves \<open>validate_all\<close>.
  \<open>validate_schema\<close> raises nothing.
\<close>

definition validate_all :: "DataValidator \<Rightarrow> runtime \<Rightarrow> DataFrame \<Rightarrow> py_error + ValidationResult" where
  "validate_all self rt df =
     (let combined = new_result;
          schema_result = validate_schema self rt df
      in and_then (validate_data_quality self rt df) (\<lambda>quality_result.
         and_then (validate_business_rules self df) (\<lambda>business_result.
           (let combined = combined\<lparr>errors := errors combined @ errors schema_result\<rparr>;
                combined = combined\<lparr>errors := errors combined @ errors quality_result\<rparr>;
                combined = combined\<lparr>errors := errors combined @ errors business_result\<rparr>;
                combined = combined\<lparr>warnings := warnings combined @ warnings schema_result\<rparr>;
                combined = combined\<lparr>warnings := warnings combined @ warnings quality_result\<rparr>;
                combined = combined\<lparr>warnings := warnings combined @ warnings business_result\<rparr>;
                combined = combined\<lparr>info := dict_update (info combined) (info schema_result)\<rparr>;
                combined = combined\<lparr>info := dict_update (info combined) (info quality_result)\<rparr>;
                combined = combined\<lparr>info := dict_update (info combined) (info business_result)\<rparr>;
                combined = combined\<lparr>is_valid := (length (errors combined) = 0)\<rparr>
            in Inr combined))))"


section \<open>Properties\<close>

subsection \<open>What is observed of a result, and example tables\<close>

text \<open>
  A result is consistent when its validity flag says that there is no error and no key
  occurs twice in its info dict.
\<close>

definition consistent :: "ValidationResult \<Rightarrow> bool" where
  "consistent r = ((is_valid r \<longleftrightarrow> errors r = []) \<and> distinct (map fst (info r)))"

text \<open>
  A process whose clock reads the start of 2026, which iterates over a set in the order
  given and whose parser reads no text as a date; the same process five years later; a
  table of two readings of one station at one time; a table with no row.
\<close>

definition example_runtime :: runtime where
  "example_runtime =
     \<lparr>now = (2026, 0), set_iteration = (\<lambda>xs. xs), parse_datetime = (\<lambda>xs c. None)\<rparr>"

definition later_runtime :: runtime where
  "later_runtime = example_runtime\<lparr>now := (2031, 0)\<rparr>"

definition normalized_validator :: DataValidator where
  "normalized_validator = \<lparr>schema_type = NORMALIZED\<rparr>"

definition readings_df :: DataFrame where
  "readings_df = \<lparr>index_len = 2, columns =
     [(''station_id'', \<lparr>dtype = ''object'', cells = [Str ''ST01'', Str ''ST01'']\<rparr>),
      (''timestamp'', \<lparr>dtype = ''datetime64[ns]'', cells = [Time (2020, 0), Time (2020, 0)]\<rparr>),
      (''parameter'', \<lparr>dtype = ''object'', cells = [Str ''PH'', Str ''PH'']\<rparr>),
      (''value'', \<lparr>dtype = ''float64'', cells = [Num 7, Num 8]\<rparr>),
      (''unit'', \<lparr>dtype = ''object'', cells = [Str ''pH'', Str ''pH'']\<rparr>)]\<rparr>"

definition zero_rows_df :: DataFrame where
  "zero_rows_df = \<lparr>index_len = 0, columns =
     [(''station_id'', \<lparr>dtype = ''object'', cells = []\<rparr>),
      (''value'', \<lparr>dtype = ''float64'', cells = []\<rparr>)]\<rparr>"

text \<open>
  A frame is rectangular when every column has one cell per row. A message is the null
  message of a column when it has the template of that message and names the column.
  Then more tables: one of ten rows with nulls in three columns, one with dates of 1899
  and 2101, a null and a text that is no date, and one with a reading dated 2030.
\<close>

definition rectangular :: "DataFrame \<Rightarrow> bool" where
  "rectangular df = (\<forall>(col, s) \<in> set (columns df). length (cells s) = index_len df)"

definition null_message_of :: "string \<Rightarrow> message \<Rightarrow> bool" where
  "null_message_of col m =
     (template m = ''Column '{col}' has {null_count:,} null values ({null_pct:.1f}%)''
      \<and> take 1 (args m) = [AStr col])"

definition null_template :: "message \<Rightarrow> bool" where
  "null_template m =
     (template m = ''Column '{col}' has {null_count:,} null values ({null_pct:.1f}%)'')"

definition nulls_df :: DataFrame where
  "nulls_df = \<lparr>index_len = 10, columns =
     [(''station_id'', \<lparr>dtype = ''object'', cells =
         [Null, Str ''A'', Str ''A'', Str ''A'', Str ''A'', Str ''A'', Str ''A'', Str ''A'', Str ''A'', Str ''A'']\<rparr>),
      (''parameter'', \<lparr>dtype = ''object'', cells =
         [Null, Null, Null, Null, Null, Null, Str ''PH'', Str ''PH'', Str ''PH'', Str ''PH'']\<rparr>),
      (''value'', \<lparr>dtype = ''float64'', cells =
         [Null, Null, Null, Null, Null, Num 1, Num 2, Num 3, Num 4, Num 5]\<rparr>)]\<rparr>"

definition dates_df :: DataFrame where
  "dates_df = \<lparr>index_len = 4, columns =
     [(''timestamp'', \<lparr>dtype = ''object'', cells =
         [Time (1899, 0), Null, Str ''not a date'', Time (2101, 0)]\<rparr>)]\<rparr>"

definition future_df :: DataFrame where
  "future_df = \<lparr>index_len = 1, columns =
     [(''timestamp'', \<lparr>dtype = ''datetime64[ns]'', cells = [Time (2030, 0)]\<rparr>)]\<rparr>"


text \<open>
  An invocation of one of the four entry points by a caller, in a runtime:
  \<open>validate_business_rules\<close> reads nothing of the runtime. Two runtimes coerce the date
  column of a table alike when \<open>pd.to_datetime\<close> makes the same timestamps of it in
  both. The future count of a table in a runtime is the number of its parsed dates that
  lie after the clock reading.
\<close>

datatype entry_point = SchemaPass | QualityPass | BusinessPass | AllPasses

definition invoke ::
  "entry_point \<Rightarrow> DataValidator \<Rightarrow> runtime \<Rightarrow> DataFrame \<Rightarrow> py_error + ValidationResult" where
  "invoke p self rt df =
     (case p of
        SchemaPass \<Rightarrow> Inr (validate_schema self rt df)
      | QualityPass \<Rightarrow> validate_data_quality self rt df
      | BusinessPass \<Rightarrow> validate_business_rules self df
      | AllPasses \<Rightarrow> validate_all self rt df)"

definition same_coercion :: "DataValidator \<Rightarrow> DataFrame \<Rightarrow> runtime \<Rightarrow> runtime \<Rightarrow> bool" where
  "same_coercion self df rt1 rt2 =
     (\<forall>s. get_column df (date_col_of self) = Some s \<longrightarrow>
        to_datetime rt1 (cells s) = to_datetime rt2 (cells s))"

definition future_count_of :: "DataValidator \<Rightarrow> DataFrame \<Rightarrow> runtime \<Rightarrow> nat" where
  "future_count_of self df rt =
     (case get_column df (date_col_of self) of
        None \<Rightarrow> 0
      | Some s \<Rightarrow> length (filter (\<lambda>t. now rt < t) (valid_dates_of rt (cells s))))"


subsection \<open>Results and dicts\<close>

lemma add_error_simps [simp]:
  "errors (add_error r m) = errors r @ [m]"
  "is_valid (add_error r m) = False"
  "warnings (add_error r m) = warnings r"
  "info (add_error r m) = info r"
  by (simp_all add: add_error_def)

lemma add_warning_simps [simp]:
  "errors (add_warning r m) = errors r"
  "is_valid (add_warning r m) = is_valid r"
  "warnings (add_warning r m) = warnings r @ [m]"
  "info (add_warning r m) = info r"
  by (simp_all add: add_warning_def)

lemma add_info_simps [simp]:
  "errors (add_info r k v) = errors r"
  "is_valid (add_info r k v) = is_valid r"
  "warnings (add_info r k v) = warnings r"
  "info (add_info r k v) = dict_set (info r) k v"
  by (simp_all add: add_info_def)

lemma new_result_simps [simp]:
  "errors new_result = []"
  "is_valid new_result = True"
  "warnings new_result = []"
  "info new_result = []"
  by (simp_all add: new_result_def)

lemma map_of_dict_set: "map_of (dict_set d k v) = (map_of d)(k \<mapsto> v)"
  by (induction d k v rule: dict_set.induct) auto

lemma keys_dict_set: "set (map fst (dict_set d k v)) = insert k (set (map fst d))"
  by (induction d k v rule: dict_set.induct) auto

lemma distinct_dict_set: "distinct (map fst d) \<Longrightarrow> distinct (map fst (dict_set d k v))"
  by (induction d k v rule: dict_set.induct) (auto simp: keys_dict_set simp flip: set_map)

lemma distinct_dict_update: "distinct (map fst d) \<Longrightarrow> distinct (map fst (dict_update d e))"
  unfolding dict_update_def
  by (induction e arbitrary: d) (auto simp: distinct_dict_set)

lemma map_of_dict_update:
  "distinct (map fst e) \<Longrightarrow> map_of (dict_update d e) = map_of d ++ map_of e"
  unfolding dict_update_def
proof (induction e arbitrary: d)
  case Nil
  then show ?case by simp
next
  case (Cons p e)
  obtain k v where p: "p = (k, v)" by (cases p)
  from Cons.prems p have k: "k \<notin> fst ` set e" and d: "distinct (map fst e)" by auto
  from k have none: "map_of e k = None" by (simp add: map_of_eq_None_iff)
  have eq: "(map_of d)(k \<mapsto> v) ++ map_of e = map_of d ++ map_of ((k, v) # e)"
  proof
    fix x
    show "((map_of d)(k \<mapsto> v) ++ map_of e) x = (map_of d ++ map_of ((k, v) # e)) x"
      using none by (cases "x = k") (simp_all add: map_add_def split: option.splits)
  qed
  have "map_of (fold (\<lambda>(k, v) d'. dict_set d' k v) (p # e) d)
      = map_of (fold (\<lambda>(k, v) d'. dict_set d' k v) e (dict_set d k v))"
    by (simp add: p)
  also have "\<dots> = map_of (dict_set d k v) ++ map_of e"
    by (rule Cons.IH[OF d])
  also have "\<dots> = (map_of d)(k \<mapsto> v) ++ map_of e"
    by (simp only: map_of_dict_set)
  also have "\<dots> = map_of d ++ map_of (p # e)"
    by (simp only: eq p)
  finally show ?case .
qed

lemma consistent_new [simp]: "consistent new_result"
  by (simp add: consistent_def)

lemma consistent_add_error [simp]: "consistent r \<Longrightarrow> consistent (add_error r m)"
  by (simp add: consistent_def)

lemma consistent_add_warning [simp]: "consistent r \<Longrightarrow> consistent (add_warning r m)"
  by (simp add: consistent_def)

lemma consistent_add_info [simp]: "consistent r \<Longrightarrow> consistent (add_info r k v)"
  by (simp add: consistent_def distinct_dict_set)

lemma consistent_check_missing: "consistent r \<Longrightarrow> consistent (check_missing self df r)"
  by (simp add: check_missing_def Let_def)

lemma consistent_check_unexpected: "consistent r \<Longrightarrow> consistent (check_unexpected self rt df r)"
  by (simp add: check_unexpected_def Let_def)

lemma consistent_fold_warning:
  "consistent r \<Longrightarrow> consistent (fold (\<lambda>x r. add_warning r (f x)) xs r)"
  by (induction xs arbitrary: r) simp_all

lemma consistent_check_dtypes: "consistent r \<Longrightarrow> consistent (check_dtypes self df r)"
  by (simp add: check_dtypes_def Let_def consistent_fold_warning)

lemma consistent_validate_schema: "consistent (validate_schema self rt df)"
  by (simp add: validate_schema_def Let_def consistent_check_missing consistent_check_unexpected
      consistent_check_dtypes)

lemma consistent_null_check:
  "consistent (fst st) \<Longrightarrow> consistent (fst (null_check df col st))"
  by (cases st) (simp add: null_check_def Let_def split: option.splits)

lemma consistent_fold_null_check:
  "consistent (fst st) \<Longrightarrow> consistent (fst (fold (null_check df) cols st))"
  by (induction cols arbitrary: st) (simp_all add: consistent_null_check)

lemma consistent_null_analysis: "consistent r \<Longrightarrow> consistent (null_analysis self df r)"
proof -
  assume r: "consistent r"
  obtain r' nc where f: "fold (null_check df) (critical_cols_of self) (r, []) = (r', nc)"
    by (cases "fold (null_check df) (critical_cols_of self) (r, [])")
  from consistent_fold_null_check[of "(r, [])" df "critical_cols_of self"] r f
  have "consistent r'" by simp
  with f show ?thesis by (simp add: null_analysis_def)
qed

lemma consistent_value_range_check:
  "consistent r \<Longrightarrow> value_range_check df r = Inr r' \<Longrightarrow> consistent r'"
  by (auto simp: value_range_check_def Let_def split: option.splits if_splits list.splits)

lemma consistent_temporal_check: "consistent r \<Longrightarrow> consistent (temporal_check self rt df r)"
  by (simp add: temporal_check_def Let_def split: option.splits list.splits)

lemma consistent_validate_data_quality:
  "validate_data_quality self rt df = Inr r \<Longrightarrow> consistent r"
  by (auto simp: validate_data_quality_def and_then_def Let_def consistent_null_analysis
      consistent_temporal_check
      split: if_splits sum.splits dest!: consistent_value_range_check[rotated])

lemma consistent_duplicate_check: "consistent r \<Longrightarrow> consistent (duplicate_check self df r)"
  by (simp add: duplicate_check_def Let_def)

lemma consistent_station_check:
  "consistent r \<Longrightarrow> station_check self df r = Inr r' \<Longrightarrow> consistent r'"
  by (auto simp: station_check_def Let_def split: option.splits if_splits list.splits)

lemma consistent_param_check:
  "consistent r \<Longrightarrow> param_check self df r = Inr r' \<Longrightarrow> consistent r'"
  by (auto simp: param_check_def and_then_def Let_def split: option.splits if_splits sum.splits)

lemma consistent_qualifier_check: "consistent r \<Longrightarrow> consistent (qualifier_check self df r)"
  by (simp add: qualifier_check_def Let_def split: option.splits)

lemma consistent_qa_status_check: "consistent r \<Longrightarrow> consistent (qa_status_check df r)"
  by (simp add: qa_status_check_def Let_def split: option.splits)

lemma consistent_validate_business_rules:
  "validate_business_rules self df = Inr r \<Longrightarrow> consistent r"
  by (auto simp: validate_business_rules_def and_then_def Let_def consistent_duplicate_check
      consistent_qualifier_check consistent_qa_status_check
      split: if_splits sum.splits
      dest!: consistent_station_check[rotated] consistent_param_check[rotated])

subsection \<open>The passes on the example tables\<close>

lemmas table_defs =
  df_empty_def column_names_def has_column_def get_column_def isna_def dropna_def isna_sum_def
  unique_def nunique_def duplicated_def row_keys_def to_datetime_def and_then_def year_def

lemmas schema_defs =
  validate_schema_def check_missing_def check_unexpected_def check_dtypes_def dtype_issues_of_def
  required_cols_of_def expected_dtypes_of_def dtypes_compatible_def lower_def lower_char_def
  RAW_REQUIRED_COLUMNS_def RAW_DTYPES_def NORMALIZED_REQUIRED_COLUMNS_def NORMALIZED_DTYPES_def

lemmas quality_defs =
  validate_data_quality_def null_analysis_def null_check_def null_pct_of_def critical_cols_of_def
  value_range_check_def temporal_check_def date_col_of_def invalid_dates_of_def valid_dates_of_def
  List.map_filter_def MIN_VALUE_def MAX_VALUE_def MIN_YEAR_def MAX_YEAR_def

lemmas business_defs =
  validate_business_rules_def duplicate_check_def id_cols_of_def duplicate_count_of_def
  station_check_def station_col_of_def str_accessor_ok_def param_check_def param_col_of_def
  sorted_cells_def qualifier_check_def qual_col_of_def qa_status_check_def unknown_codes_def
  MAX_STATION_ID_LENGTH_def VALID_QUALIFIERS_def VALID_QA_STATUS_def

lemmas result_defs = new_result_def add_error_def add_warning_def add_info_def

lemma readings_quality:
  "validate_data_quality normalized_validator example_runtime readings_df =
     Inr \<lparr>is_valid = True, errors = [], warnings = [],
          info = [(''value_range'', IValueRange 7 8),
                  (''date_range'', IDateRange (2020, 0) (2020, 0))]\<rparr>"
  by (simp add: normalized_validator_def example_runtime_def readings_df_def
      quality_defs table_defs result_defs Let_def)

lemma readings_business:
  "validate_business_rules normalized_validator readings_df =
     Inr \<lparr>is_valid = True, errors = [],
          warnings = [Msg ''{duplicate_count} duplicate records found (same timestamp + station + parameter)'' [AInt 1]],
          info = [(''duplicate_count'', IInt 1), (''unique_stations'', IInt 1),
                  (''unique_parameters'', IInt 1), (''parameters'', ICells [Str ''PH''])]\<rparr>"
  by (simp add: normalized_validator_def readings_df_def
      business_defs table_defs result_defs Let_def)

lemma readings_schema:
  "validate_schema normalized_validator example_runtime readings_df =
     \<lparr>is_valid = True, errors = [], warnings = [],
      info = [(''row_count'', IInt 2), (''column_count'', IInt 5)]\<rparr>"
  by (simp add: normalized_validator_def example_runtime_def readings_df_def
      schema_defs table_defs result_defs Let_def)

lemma contains_iff: "contains p s \<longleftrightarrow> (\<exists>u v. s = u @ p @ v)"
proof (induction s)
  case Nil
  then show ?case by auto
next
  case (Cons c s)
  show ?case
  proof
    assume "contains p (c # s)"
    then consider "prefix p (c # s)" | "contains p s" by auto
    then show "\<exists>u v. c # s = u @ p @ v"
    proof cases
      case 1
      then obtain v where "c # s = p @ v" by (auto simp: prefix_def)
      then have "c # s = [] @ p @ v" by simp
      then show ?thesis by blast
    next
      case 2
      with Cons obtain u v where "s = u @ p @ v" by blast
      then have "c # s = (c # u) @ p @ v" by simp
      then show ?thesis by blast
    qed
  next
    assume "\<exists>u v. c # s = u @ p @ v"
    then obtain u v where e: "c # s = u @ p @ v" by blast
    show "contains p (c # s)"
    proof (cases u)
      case Nil
      with e have "prefix p (c # s)" by (simp add: prefix_def)
      then show ?thesis by simp
    next
      case (Cons a u')
      with e have "s = u' @ p @ v" by simp
      with Cons.IH have "contains p s" by blast
      then show ?thesis by simp
    qed
  qed
qed

lemma validate_all_Inr:
  assumes "validate_data_quality self rt df = Inr q"
    and "validate_business_rules self df = Inr b"
  shows "validate_all self rt df =
     Inr \<lparr>is_valid = (errors (validate_schema self rt df) @ errors q @ errors b = []),
          errors = errors (validate_schema self rt df) @ errors q @ errors b,
          warnings = warnings (validate_schema self rt df) @ warnings q @ warnings b,
          info = dict_update (dict_update (dict_update [] (info (validate_schema self rt df)))
                    (info q)) (info b)\<rparr>"
  using assms by (simp add: validate_all_def and_then_def Let_def new_result_def)

lemma validate_all_Inr_cases:
  assumes "validate_all self rt df = Inr r"
  obtains q b where "validate_data_quality self rt df = Inr q"
    and "validate_business_rules self df = Inr b"
  using assms by (auto simp: validate_all_def and_then_def Let_def split: sum.splits)

subsection \<open>The quality pass, the business pass and the clock\<close>

lemma get_column_in_set: "get_column df col = Some s \<Longrightarrow> (col, s) \<in> set (columns df)"
  by (simp add: get_column_def map_of_SomeD)

lemma rectangular_length:
  "rectangular df \<Longrightarrow> get_column df col = Some s \<Longrightarrow> length (cells s) = index_len df"
  by (auto simp: rectangular_def dest!: get_column_in_set)

lemma get_column_not_empty:
  "get_column df col = Some s \<Longrightarrow> df_empty df \<longleftrightarrow> index_len df = 0"
  by (auto simp: df_empty_def get_column_def)

text \<open>The loop over the critical columns.\<close>

lemma null_check_errors:
  "filter (null_message_of col) (errors (fst (null_check df c st))) =
     filter (null_message_of col) (errors (fst st)) @
     (if c = col then
        (case get_column df col of
           None \<Rightarrow> []
         | Some s \<Rightarrow>
             if 0 < isna_sum (cells s) \<and> 50 < null_pct_of (isna_sum (cells s)) df
             then [Msg ''Column '{col}' has {null_count:,} null values ({null_pct:.1f}%)''
                     [AStr col, AInt (int (isna_sum (cells s))),
                      ANum (null_pct_of (isna_sum (cells s)) df)]]
             else [])
      else [])"
  by (cases st) (simp add: null_check_def Let_def null_message_of_def split: option.splits)

lemma null_check_warnings:
  "filter (null_message_of col) (warnings (fst (null_check df c st))) =
     filter (null_message_of col) (warnings (fst st)) @
     (if c = col then
        (case get_column df col of
           None \<Rightarrow> []
         | Some s \<Rightarrow>
             if 0 < isna_sum (cells s) \<and> \<not> 50 < null_pct_of (isna_sum (cells s)) df
                \<and> 10 < null_pct_of (isna_sum (cells s)) df
             then [Msg ''Column '{col}' has {null_count:,} null values ({null_pct:.1f}%)''
                     [AStr col, AInt (int (isna_sum (cells s))),
                      ANum (null_pct_of (isna_sum (cells s)) df)]]
             else [])
      else [])"
  by (cases st) (simp add: null_check_def Let_def null_message_of_def split: option.splits)

lemma fold_null_check_errors:
  "distinct cols \<Longrightarrow>
   filter (null_message_of col) (errors (fst (fold (null_check df) cols st))) =
     filter (null_message_of col) (errors (fst st)) @
     (if col \<in> set cols then
        (case get_column df col of
           None \<Rightarrow> []
         | Some s \<Rightarrow>
             if 0 < isna_sum (cells s) \<and> 50 < null_pct_of (isna_sum (cells s)) df
             then [Msg ''Column '{col}' has {null_count:,} null values ({null_pct:.1f}%)''
                     [AStr col, AInt (int (isna_sum (cells s))),
                      ANum (null_pct_of (isna_sum (cells s)) df)]]
             else [])
      else [])"
proof (induction cols arbitrary: st)
  case Nil
  then show ?case by simp
next
  case (Cons c cols)
  from Cons.prems have d: "distinct cols" and c: "c \<notin> set cols" by auto
  show ?case
    using Cons.IH[OF d, of "null_check df c st"] c
    by (simp only: fold_simps null_check_errors[of col df c st]) auto
qed

lemma fold_null_check_warnings:
  "distinct cols \<Longrightarrow>
   filter (null_message_of col) (warnings (fst (fold (null_check df) cols st))) =
     filter (null_message_of col) (warnings (fst st)) @
     (if col \<in> set cols then
        (case get_column df col of
           None \<Rightarrow> []
         | Some s \<Rightarrow>
             if 0 < isna_sum (cells s) \<and> \<not> 50 < null_pct_of (isna_sum (cells s)) df
                \<and> 10 < null_pct_of (isna_sum (cells s)) df
             then [Msg ''Column '{col}' has {null_count:,} null values ({null_pct:.1f}%)''
                     [AStr col, AInt (int (isna_sum (cells s))),
                      ANum (null_pct_of (isna_sum (cells s)) df)]]
             else [])
      else [])"
proof (induction cols arbitrary: st)
  case Nil
  then show ?case by simp
next
  case (Cons c cols)
  from Cons.prems have d: "distinct cols" and c: "c \<notin> set cols" by auto
  show ?case
    using Cons.IH[OF d, of "null_check df c st"] c
    by (simp only: fold_simps null_check_warnings[of col df c st]) auto
qed

lemma distinct_critical_cols: "distinct (critical_cols_of self)"
  by (simp add: critical_cols_of_def)

lemma null_analysis_errors: 
  "errors (null_analysis self df r) = errors (fst (fold (null_check df) (critical_cols_of self) (r, [])))"
  by (simp add: null_analysis_def split: prod.splits)

lemma null_analysis_warnings: 
  "warnings (null_analysis self df r) = warnings (fst (fold (null_check df) (critical_cols_of self) (r, [])))"
  by (simp add: null_analysis_def split: prod.splits)

text \<open>Every message of the loop has the template of the null message.\<close>

lemma null_check_templates:
  "list_all null_template (errors (fst st)) \<Longrightarrow> list_all null_template (warnings (fst st)) \<Longrightarrow>
   list_all null_template (errors (fst (null_check df c st)))
   \<and> list_all null_template (warnings (fst (null_check df c st)))"
  by (cases st) (simp add: null_check_def Let_def null_template_def split: option.splits)

lemma fold_null_check_templates:
  "list_all null_template (errors (fst st)) \<Longrightarrow> list_all null_template (warnings (fst st)) \<Longrightarrow>
   list_all null_template (errors (fst (fold (null_check df) cols st)))
   \<and> list_all null_template (warnings (fst (fold (null_check df) cols st)))"
  by (induction cols arbitrary: st) (simp_all add: null_check_templates)

lemma null_analysis_templates:
  "list_all null_template (errors (null_analysis self df new_result))
   \<and> list_all null_template (warnings (null_analysis self df new_result))"
  using fold_null_check_templates[of "(new_result, [])" df "critical_cols_of self"]
  by (simp add: null_analysis_errors null_analysis_warnings)

text \<open>The value range adds warnings only.\<close>

lemma value_range_check_errors:
  "value_range_check df r = Inr r' \<Longrightarrow> errors r' = errors r"
  by (auto simp: value_range_check_def Let_def split: option.splits if_splits list.splits)

lemma value_range_check_warnings:
  "value_range_check df r = Inr r' \<Longrightarrow>
   \<exists>ws. warnings r' = warnings r @ ws
      \<and> (\<forall>m \<in> set ws. template m \<in>
           {''{count} values below minimum threshold ({self.constraints.MIN_VALUE})'',
            ''{count} values above maximum threshold ({self.constraints.MAX_VALUE})''})"
  by (auto simp: value_range_check_def Let_def split: option.splits if_splits list.splits)

text \<open>The temporal analysis.\<close>

lemma temporal_check_errors:
  "errors (temporal_check self rt df r) = errors r @
     (case get_column df (date_col_of self) of
        None \<Rightarrow> []
      | Some s \<Rightarrow>
          (if 0 < invalid_dates_of rt (cells s)
           then [Msg ''{invalid_dates} datetime values could not be parsed''
                   [AInt (invalid_dates_of rt (cells s))]]
           else []) @
          (case valid_dates_of rt (cells s) of
             [] \<Rightarrow> []
           | d # ds \<Rightarrow>
               if MAX_YEAR < year (fold max ds d)
               then [Msg ''Dates after {self.constraints.MAX_YEAR} found (latest: {max_date.year})''
                       [AInt MAX_YEAR, AInt (year (fold max ds d))]]
               else []))"
  by (simp add: temporal_check_def Let_def split: option.splits list.splits)

lemma temporal_check_warnings:
  "warnings (temporal_check self rt df r) = warnings r @
     (case get_column df (date_col_of self) of
        None \<Rightarrow> []
      | Some s \<Rightarrow>
          (case valid_dates_of rt (cells s) of
             [] \<Rightarrow> []
           | d # ds \<Rightarrow>
               (if year (fold min ds d) < MIN_YEAR
                then [Msg ''Dates before {self.constraints.MIN_YEAR} found (earliest: {min_date.year})''
                        [AInt MIN_YEAR, AInt (year (fold min ds d))]]
                else []) @
               (if 0 < length (filter (\<lambda>t. now rt < t) (d # ds))
                then [Msg ''{future_count} timestamps are in the future''
                        [AInt (int (length (filter (\<lambda>t. now rt < t) (d # ds))))]]
                else [])))"
  by (simp add: temporal_check_def Let_def split: option.splits list.splits)

lemma temporal_check_info:
  "info (temporal_check self rt df r) =
     (case get_column df (date_col_of self) of
        None \<Rightarrow> info r
      | Some s \<Rightarrow>
          (case valid_dates_of rt (cells s) of
             [] \<Rightarrow> info r
           | d # ds \<Rightarrow> dict_set (info r) ''date_range'' (IDateRange (fold min ds d) (fold max ds d))))"
  by (simp add: temporal_check_def Let_def split: option.splits list.splits)

text \<open>The quality pass on a table with rows and columns, step by step.\<close>

lemma validate_data_quality_steps:
  assumes "validate_data_quality self rt df = Inr r" and "\<not> df_empty df"
  obtains r2 where "value_range_check df (null_analysis self df new_result) = Inr r2"
    and "r = temporal_check self rt df r2"
  using assms
  by (auto simp: validate_data_quality_def and_then_def Let_def split: sum.splits)

lemma filter_templates_empty:
  "(\<forall>m \<in> set ws. \<not> P m) \<Longrightarrow> filter P ws = []"
  by (simp add: filter_empty_conv)

lemma quality_errors_split:
  assumes "validate_data_quality self rt df = Inr r" and "\<not> df_empty df"
  shows "errors r = errors (null_analysis self df new_result) @
     (case get_column df (date_col_of self) of
        None \<Rightarrow> []
      | Some s \<Rightarrow>
          (if 0 < invalid_dates_of rt (cells s)
           then [Msg ''{invalid_dates} datetime values could not be parsed''
                   [AInt (invalid_dates_of rt (cells s))]]
           else []) @
          (case valid_dates_of rt (cells s) of
             [] \<Rightarrow> []
           | d # ds \<Rightarrow>
               if MAX_YEAR < year (fold max ds d)
               then [Msg ''Dates after {self.constraints.MAX_YEAR} found (latest: {max_date.year})''
                       [AInt MAX_YEAR, AInt (year (fold max ds d))]]
               else []))"
proof -
  from assms obtain r2 where v: "value_range_check df (null_analysis self df new_result) = Inr r2"
    and r: "r = temporal_check self rt df r2"
    by (rule validate_data_quality_steps)
  from value_range_check_errors[OF v] r show ?thesis
    by (simp only: temporal_check_errors)
qed

lemma quality_warnings_split:
  assumes "validate_data_quality self rt df = Inr r" and "\<not> df_empty df"
  shows "\<exists>ws. warnings r = warnings (null_analysis self df new_result) @ ws @
     (case get_column df (date_col_of self) of
        None \<Rightarrow> []
      | Some s \<Rightarrow>
          (case valid_dates_of rt (cells s) of
             [] \<Rightarrow> []
           | d # ds \<Rightarrow>
               (if year (fold min ds d) < MIN_YEAR
                then [Msg ''Dates before {self.constraints.MIN_YEAR} found (earliest: {min_date.year})''
                        [AInt MIN_YEAR, AInt (year (fold min ds d))]]
                else []) @
               (if 0 < length (filter (\<lambda>t. now rt < t) (d # ds))
                then [Msg ''{future_count} timestamps are in the future''
                        [AInt (int (length (filter (\<lambda>t. now rt < t) (d # ds))))]]
                else [])))
     \<and> (\<forall>m \<in> set ws. template m \<in>
           {''{count} values below minimum threshold ({self.constraints.MIN_VALUE})'',
            ''{count} values above maximum threshold ({self.constraints.MAX_VALUE})''})"
proof -
  from assms obtain r2 where v: "value_range_check df (null_analysis self df new_result) = Inr r2"
    and r: "r = temporal_check self rt df r2"
    by (rule validate_data_quality_steps)
  from value_range_check_warnings[OF v] obtain ws
    where ws: "warnings r2 = warnings (null_analysis self df new_result) @ ws"
      and t: "\<forall>m \<in> set ws. template m \<in>
           {''{count} values below minimum threshold ({self.constraints.MIN_VALUE})'',
            ''{count} values above maximum threshold ({self.constraints.MAX_VALUE})''}"
    by blast
  from r ws have "warnings r = warnings (null_analysis self df new_result) @ ws @
     (case get_column df (date_col_of self) of
        None \<Rightarrow> []
      | Some s \<Rightarrow>
          (case valid_dates_of rt (cells s) of
             [] \<Rightarrow> []
           | d # ds \<Rightarrow>
               (if year (fold min ds d) < MIN_YEAR
                then [Msg ''Dates before {self.constraints.MIN_YEAR} found (earliest: {min_date.year})''
                        [AInt MIN_YEAR, AInt (year (fold min ds d))]]
                else []) @
               (if 0 < length (filter (\<lambda>t. now rt < t) (d # ds))
                then [Msg ''{future_count} timestamps are in the future''
                        [AInt (int (length (filter (\<lambda>t. now rt < t) (d # ds))))]]
                else [])))"
    by (simp only: temporal_check_warnings append_assoc)
  with t show ?thesis by blast
qed

lemma quality_null_errors:
  assumes "validate_data_quality self rt df = Inr r" and "\<not> df_empty df"
    and "col \<in> set (critical_cols_of self)" and "get_column df col = Some s"
    and "0 < isna_sum (cells s)"
  shows "filter (null_message_of col) (errors r) =
     (if 50 < null_pct_of (isna_sum (cells s)) df
      then [Msg ''Column '{col}' has {null_count:,} null values ({null_pct:.1f}%)''
              [AStr col, AInt (int (isna_sum (cells s))),
               ANum (null_pct_of (isna_sum (cells s)) df)]]
      else [])"
proof -
  have n: "filter (null_message_of col) (errors (null_analysis self df new_result)) =
     (if 50 < null_pct_of (isna_sum (cells s)) df
      then [Msg ''Column '{col}' has {null_count:,} null values ({null_pct:.1f}%)''
              [AStr col, AInt (int (isna_sum (cells s))),
               ANum (null_pct_of (isna_sum (cells s)) df)]]
      else [])"
    using fold_null_check_errors[OF distinct_critical_cols, of col df self "(new_result, [])"] assms(3-5)
    by (simp add: null_analysis_errors)
  show ?thesis
    unfolding quality_errors_split[OF assms(1,2)] filter_append n
    by (simp add: null_message_of_def split: option.splits list.splits)
qed

lemma quality_null_warnings:
  assumes "validate_data_quality self rt df = Inr r" and "\<not> df_empty df"
    and "col \<in> set (critical_cols_of self)" and "get_column df col = Some s"
    and "0 < isna_sum (cells s)"
  shows "filter (null_message_of col) (warnings r) =
     (if \<not> 50 < null_pct_of (isna_sum (cells s)) df \<and> 10 < null_pct_of (isna_sum (cells s)) df
      then [Msg ''Column '{col}' has {null_count:,} null values ({null_pct:.1f}%)''
              [AStr col, AInt (int (isna_sum (cells s))),
               ANum (null_pct_of (isna_sum (cells s)) df)]]
      else [])"
proof -
  have n: "filter (null_message_of col) (warnings (null_analysis self df new_result)) =
     (if \<not> 50 < null_pct_of (isna_sum (cells s)) df \<and> 10 < null_pct_of (isna_sum (cells s)) df
      then [Msg ''Column '{col}' has {null_count:,} null values ({null_pct:.1f}%)''
              [AStr col, AInt (int (isna_sum (cells s))),
               ANum (null_pct_of (isna_sum (cells s)) df)]]
      else [])"
    using fold_null_check_warnings[OF distinct_critical_cols, of col df self "(new_result, [])"] assms(3-5)
    by (simp add: null_analysis_warnings)
  from quality_warnings_split[OF assms(1,2)] obtain ws tw
    where w: "warnings r = warnings (null_analysis self df new_result) @ ws @ tw"
      and ws: "\<forall>m \<in> set ws. template m \<in>
           {''{count} values below minimum threshold ({self.constraints.MIN_VALUE})'',
            ''{count} values above maximum threshold ({self.constraints.MAX_VALUE})''}"
      and tw: "tw = (case get_column df (date_col_of self) of
        None \<Rightarrow> []
      | Some s \<Rightarrow>
          (case valid_dates_of rt (cells s) of
             [] \<Rightarrow> []
           | d # ds \<Rightarrow>
               (if year (fold min ds d) < MIN_YEAR
                then [Msg ''Dates before {self.constraints.MIN_YEAR} found (earliest: {min_date.year})''
                        [AInt MIN_YEAR, AInt (year (fold min ds d))]]
                else []) @
               (if 0 < length (filter (\<lambda>t. now rt < t) (d # ds))
                then [Msg ''{future_count} timestamps are in the future''
                        [AInt (int (length (filter (\<lambda>t. now rt < t) (d # ds))))]]
                else [])))"
    by blast
  have 1: "filter (null_message_of col) ws = []"
    by (rule filter_templates_empty) (use ws in \<open>auto simp: null_message_of_def\<close>)
  have 2: "filter (null_message_of col) tw = []"
    unfolding tw by (simp add: null_message_of_def split: option.splits list.splits)
  show ?thesis
    unfolding w filter_append n 1 2 by simp
qed

lemma nulls_quality:
  "validate_data_quality normalized_validator example_runtime nulls_df =
     Inr \<lparr>is_valid = False,
          errors = [Msg ''Column '{col}' has {null_count:,} null values ({null_pct:.1f}%)''
                      [AStr ''parameter'', AInt 6, ANum 60]],
          warnings = [Msg ''Column '{col}' has {null_count:,} null values ({null_pct:.1f}%)''
                        [AStr ''value'', AInt 5, ANum 50]],
          info = [(''null_counts'',
                   INullCounts [(''station_id'', 1, 10), (''parameter'', 6, 60), (''value'', 5, 50)]),
                  (''value_range'', IValueRange 1 5)]\<rparr>"
  by (simp add: normalized_validator_def example_runtime_def nulls_df_def
      quality_defs table_defs result_defs Let_def)

lemma mono_year: "mono year"
  by (auto simp: mono_def year_def less_eq_prod_def)

lemma year_fold_max: "year (fold max ds d) = Max (year ` set (d # ds))"
proof -
  have "fold max ds d = Max (set (d # ds))" by (simp only: Max.set_eq_fold)
  moreover have "year (Max (set (d # ds))) = Max (year ` set (d # ds))"
    by (rule mono_Max_commute[OF mono_year]) simp_all
  ultimately show ?thesis by simp
qed

lemma year_fold_min: "year (fold min ds d) = Min (year ` set (d # ds))"
proof -
  have "fold min ds d = Min (set (d # ds))" by (simp only: Min.set_eq_fold)
  moreover have "year (Min (set (d # ds))) = Min (year ` set (d # ds))"
    by (rule mono_Min_commute[OF mono_year]) simp_all
  ultimately show ?thesis by simp
qed

lemma null_templates_of_quality:
  "\<forall>m \<in> set (errors (null_analysis self df new_result)) \<union> set (warnings (null_analysis self df new_result)).
     template m = ''Column '{col}' has {null_count:,} null values ({null_pct:.1f}%)''"
  using null_analysis_templates[of self df]
  by (auto simp: list_all_iff null_template_def)

lemma valid_dates_nil: "valid_dates_of rt [] = []"
  by (simp add: valid_dates_of_def to_datetime_def List.map_filter_def)

lemma rows_of_valid_dates:
  assumes "rectangular df" and "get_column df col = Some s" and "valid_dates_of rt (cells s) \<noteq> []"
  shows "\<not> df_empty df"
proof -
  from assms(3) have "cells s \<noteq> []" using valid_dates_nil by metis
  then have "0 < length (cells s)" by simp
  with rectangular_length[OF assms(1,2)] have "index_len df \<noteq> 0" by linarith
  with get_column_not_empty[OF assms(2)] show ?thesis by simp
qed

lemma dates_quality:
  "validate_data_quality normalized_validator example_runtime dates_df =
     Inr \<lparr>is_valid = False,
          errors = [Msg ''{invalid_dates} datetime values could not be parsed'' [AInt 1],
                    Msg ''Dates after {self.constraints.MAX_YEAR} found (latest: {max_date.year})''
                      [AInt 2100, AInt 2101]],
          warnings = [Msg ''Column '{col}' has {null_count:,} null values ({null_pct:.1f}%)''
                        [AStr ''timestamp'', AInt 1, ANum 25],
                      Msg ''Dates before {self.constraints.MIN_YEAR} found (earliest: {min_date.year})''
                        [AInt 1900, AInt 1899],
                      Msg ''{future_count} timestamps are in the future'' [AInt 1]],
          info = [(''null_counts'', INullCounts [(''timestamp'', 1, 25)]),
                  (''date_range'', IDateRange (1899, 0) (2101, 0))]\<rparr>"
  by (simp add: normalized_validator_def example_runtime_def dates_df_def
      quality_defs table_defs result_defs Let_def)

lemma rectangular_examples:
  "rectangular nulls_df" "rectangular dates_df" "rectangular readings_df" "rectangular zero_rows_df"
  by (simp_all add: rectangular_def nulls_df_def dates_df_def readings_df_def zero_rows_df_def)

lemma count_failures:
  assumes "g Null = None"
  shows "int (length (filter (\<lambda>d. d = None) (map g ys))) - int (length (filter (\<lambda>c. c = Null) ys))
       = int (length (filter (\<lambda>(c, d). c \<noteq> Null \<and> d = None) (zip ys (map g ys))))"
  using assms by (induction ys) auto

lemma length_duplicated_from: "length (duplicated_from seen ks) = length ks"
  by (induction ks arbitrary: seen) simp_all

lemma nth_duplicated_from:
  "i < length ks \<Longrightarrow>
   duplicated_from seen ks ! i = (ks ! i \<in> set seen \<or> (\<exists>j<i. ks ! j = ks ! i))"
proof (induction ks arbitrary: seen i)
  case Nil
  then show ?case by simp
next
  case (Cons k ks)
  show ?case
  proof (cases i)
    case 0
    then show ?thesis by simp
  next
    case (Suc i')
    with Cons.prems have "i' < length ks" by simp
    from Cons.IH[OF this, of "k # seen"]
    have "duplicated_from (k # seen) ks ! i' =
        (ks ! i' \<in> set seen \<or> ks ! i' = k \<or> (\<exists>j<i'. ks ! j = ks ! i'))"
      by auto
    moreover have "(\<exists>j<Suc i'. (k # ks) ! j = ks ! i') \<longleftrightarrow> (k = ks ! i' \<or> (\<exists>j<i'. ks ! j = ks ! i'))"
      by (auto simp: less_Suc_eq_0_disj)
    ultimately show ?thesis using Suc by auto
  qed
qed

lemma duplicated_count:
  "length (filter (\<lambda>b. b) (duplicated ks)) = card {i. i < length ks \<and> (\<exists>j<i. ks ! j = ks ! i)}"
proof -
  have "length (filter (\<lambda>b. b) (duplicated ks)) =
      card {i. i < length (duplicated ks) \<and> duplicated ks ! i}"
    by (rule length_filter_conv_card)
  also have "{i. i < length (duplicated ks) \<and> duplicated ks ! i} =
      {i. i < length ks \<and> (\<exists>j<i. ks ! j = ks ! i)}"
    by (auto simp: duplicated_def length_duplicated_from nth_duplicated_from)
  finally show ?thesis .
qed

text \<open>The steps of the business pass.\<close>

lemma duplicate_check_new:
  "duplicate_check self df new_result =
     (if list_all (has_column df) (id_cols_of self) \<and> 0 < duplicate_count_of df (id_cols_of self)
      then \<lparr>is_valid = True, errors = [],
            warnings = [Msg ''{duplicate_count} duplicate records found (same timestamp + station + parameter)''
                          [AInt (int (duplicate_count_of df (id_cols_of self)))]],
            info = [(''duplicate_count'', IInt (int (duplicate_count_of df (id_cols_of self))))]\<rparr>
      else new_result)"
  by (simp add: duplicate_check_def Let_def result_defs)

lemma station_check_effect:
  assumes "station_check self df r = Inr r'"
  shows "(\<forall>m \<in> set (errors r'). m \<in> set (errors r) \<or> template m = ''No unique stations found'')"
    and "\<exists>ws. warnings r' = warnings r @ ws
          \<and> (\<forall>m \<in> set ws. template m =
                ''Station IDs exceed max length ({max_len} > {self.constraints.MAX_STATION_ID_LENGTH})'')"
    and "k \<noteq> ''unique_stations'' \<Longrightarrow> map_of (info r') k = map_of (info r) k"
  using assms
  by (auto simp: station_check_def Let_def map_of_dict_set split: option.splits if_splits list.splits)

lemma param_check_effect:
  assumes "param_check self df r = Inr r'"
  shows "(\<forall>m \<in> set (errors r'). m \<in> set (errors r) \<or> template m = ''No unique parameters found'')"
    and "warnings r' = warnings r"
    and "k \<noteq> ''unique_parameters'' \<Longrightarrow> k \<noteq> ''parameters'' \<Longrightarrow> map_of (info r') k = map_of (info r) k"
  using assms
  by (auto simp: param_check_def and_then_def Let_def map_of_dict_set
      split: option.splits if_splits sum.splits)

lemma qualifier_check_effect:
  "errors (qualifier_check self df r) = errors r"
  "\<exists>ws. warnings (qualifier_check self df r) = warnings r @ ws
      \<and> (\<forall>m \<in> set ws. template m =
            ''Unknown qualifier codes found: {', '.join(map(str, invalid_quals))}'')"
  "info (qualifier_check self df r) = info r"
  by (auto simp: qualifier_check_def Let_def split: option.splits)

lemma qa_status_check_effect:
  "errors (qa_status_check df r) = errors r"
  "\<exists>ws. warnings (qa_status_check df r) = warnings r @ ws
      \<and> (\<forall>m \<in> set ws. template m =
            ''Unknown QA status codes found: {', '.join(map(str, invalid_qa))}'')"
  "info (qa_status_check df r) = info r"
  by (auto simp: qa_status_check_def Let_def split: option.splits)

lemma validate_business_rules_steps:
  assumes "validate_business_rules self df = Inr r" and "\<not> df_empty df"
  obtains r1 r2 where "station_check self df (duplicate_check self df new_result) = Inr r1"
    and "param_check self df r1 = Inr r2"
    and "r = qa_status_check df (qualifier_check self df r2)"
  using assms
  by (auto simp: validate_business_rules_def and_then_def Let_def split: sum.splits)

lemma business_after_duplicates:
  assumes "validate_business_rules self df = Inr r" and "\<not> df_empty df"
  shows "\<exists>ws. warnings r = warnings (duplicate_check self df new_result) @ ws
      \<and> (\<forall>m \<in> set ws. template m \<in>
           {''Station IDs exceed max length ({max_len} > {self.constraints.MAX_STATION_ID_LENGTH})'',
            ''Unknown qualifier codes found: {', '.join(map(str, invalid_quals))}'',
            ''Unknown QA status codes found: {', '.join(map(str, invalid_qa))}''})"
    and "\<forall>m \<in> set (errors r). m \<in> set (errors (duplicate_check self df new_result))
           \<or> template m \<in> {''No unique stations found'', ''No unique parameters found''}"
    and "map_of (info r) ''duplicate_count'' =
           map_of (info (duplicate_check self df new_result)) ''duplicate_count''"
proof -
  from assms obtain r1 r2
    where s: "station_check self df (duplicate_check self df new_result) = Inr r1"
      and p: "param_check self df r1 = Inr r2"
      and r: "r = qa_status_check df (qualifier_check self df r2)"
    by (rule validate_business_rules_steps)
  from station_check_effect(2)[OF s] obtain ws1
    where w1: "warnings r1 = warnings (duplicate_check self df new_result) @ ws1"
      and t1: "\<forall>m \<in> set ws1. template m =
                ''Station IDs exceed max length ({max_len} > {self.constraints.MAX_STATION_ID_LENGTH})''"
    by blast
  from qualifier_check_effect(2)[of self df r2] obtain ws2
    where w2: "warnings (qualifier_check self df r2) = warnings r2 @ ws2"
      and t2: "\<forall>m \<in> set ws2. template m =
            ''Unknown qualifier codes found: {', '.join(map(str, invalid_quals))}''"
    by blast
  from qa_status_check_effect(2)[of df "qualifier_check self df r2"] obtain ws3
    where w3: "warnings r = warnings (qualifier_check self df r2) @ ws3"
      and t3: "\<forall>m \<in> set ws3. template m =
            ''Unknown QA status codes found: {', '.join(map(str, invalid_qa))}''"
    unfolding r by blast
  have "warnings r = warnings (duplicate_check self df new_result) @ (ws1 @ ws2 @ ws3)"
    by (simp add: w3 w2 w1 param_check_effect(2)[OF p])
  moreover from t1 t2 t3 have "\<forall>m \<in> set (ws1 @ ws2 @ ws3). template m \<in>
           {''Station IDs exceed max length ({max_len} > {self.constraints.MAX_STATION_ID_LENGTH})'',
            ''Unknown qualifier codes found: {', '.join(map(str, invalid_quals))}'',
            ''Unknown QA status codes found: {', '.join(map(str, invalid_qa))}''}"
    by auto
  ultimately show "\<exists>ws. warnings r = warnings (duplicate_check self df new_result) @ ws
      \<and> (\<forall>m \<in> set ws. template m \<in>
           {''Station IDs exceed max length ({max_len} > {self.constraints.MAX_STATION_ID_LENGTH})'',
            ''Unknown qualifier codes found: {', '.join(map(str, invalid_quals))}'',
            ''Unknown QA status codes found: {', '.join(map(str, invalid_qa))}''})"
    by blast
  have "errors r = errors r2"
    by (simp add: r qualifier_check_effect(1) qa_status_check_effect(1))
  with station_check_effect(1)[OF s] param_check_effect(1)[OF p]
  show "\<forall>m \<in> set (errors r). m \<in> set (errors (duplicate_check self df new_result))
           \<or> template m \<in> {''No unique stations found'', ''No unique parameters found''}"
    by auto
  have "info r = info r2"
    by (simp add: r qualifier_check_effect(3) qa_status_check_effect(3))
  with station_check_effect(3)[OF s, of "''duplicate_count''"]
    param_check_effect(3)[OF p, of "''duplicate_count''"]
  show "map_of (info r) ''duplicate_count'' =
           map_of (info (duplicate_check self df new_result)) ''duplicate_count''"
    by simp
qed

lemma row_keys_no_rows:
  assumes "rectangular df" and "index_len df = 0"
  shows "row_keys df cols = []"
proof -
  have "(case get_column df col of None \<Rightarrow> [] | Some s \<Rightarrow> cells s) = []" for col
    using rectangular_length[OF assms(1)] assms(2) by (auto split: option.splits)
  then show ?thesis
    by (simp add: row_keys_def transpose_empty)
qed

lemma future_quality_now:
  "validate_data_quality normalized_validator example_runtime future_df =
     Inr \<lparr>is_valid = True, errors = [],
          warnings = [Msg ''{future_count} timestamps are in the future'' [AInt 1]],
          info = [(''date_range'', IDateRange (2030, 0) (2030, 0))]\<rparr>"
  by (simp add: normalized_validator_def example_runtime_def future_df_def
      quality_defs table_defs result_defs Let_def)

lemma future_quality_later:
  "validate_data_quality normalized_validator later_runtime future_df =
     Inr \<lparr>is_valid = True, errors = [], warnings = [],
          info = [(''date_range'', IDateRange (2030, 0) (2030, 0))]\<rparr>"
  by (simp add: normalized_validator_def later_runtime_def example_runtime_def future_df_def
      quality_defs table_defs result_defs Let_def)

lemma future_business:
  "validate_business_rules normalized_validator future_df = Inr new_result"
  by (simp add: normalized_validator_def future_df_def
      business_defs table_defs Let_def)

lemma future_schema:
  "warnings (validate_schema normalized_validator rt future_df) = []"
  by (simp add: normalized_validator_def future_df_def
      schema_defs table_defs result_defs Let_def)

lemma to_datetime_parse:
  "parse_datetime rt1 = parse_datetime rt2 \<Longrightarrow> to_datetime rt1 = to_datetime rt2"
  by (rule ext) (simp add: to_datetime_def split: cell.splits)

lemma check_unexpected_runtime:
  "set_iteration rt1 = set_iteration rt2 \<Longrightarrow>
   check_unexpected self rt1 df r = check_unexpected self rt2 df r"
  by (simp only: check_unexpected_def)

lemma validate_schema_runtime:
  assumes "set_iteration rt1 = set_iteration rt2"
  shows "validate_schema self rt1 df = validate_schema self rt2 df"
  by (simp only: validate_schema_def check_unexpected_runtime[OF assms])

lemma dates_coerced:
  assumes "to_datetime rt1 xs = to_datetime rt2 xs"
  shows "valid_dates_of rt1 xs = valid_dates_of rt2 xs"
    and "invalid_dates_of rt1 xs = invalid_dates_of rt2 xs"
  by (simp_all only: valid_dates_of_def invalid_dates_of_def assms)

lemma temporal_check_coerced:
  assumes "same_coercion self df rt1 rt2"
  shows "errors (temporal_check self rt1 df r) = errors (temporal_check self rt2 df r)"
    and "info (temporal_check self rt1 df r) = info (temporal_check self rt2 df r)"
proof -
  have "errors (temporal_check self rt1 df r) = errors (temporal_check self rt2 df r)
      \<and> info (temporal_check self rt1 df r) = info (temporal_check self rt2 df r)"
  proof (cases "get_column df (date_col_of self)")
    case None
    then show ?thesis
      by (simp only: temporal_check_errors temporal_check_info option.case)
  next
    case (Some s)
    with assms have "to_datetime rt1 (cells s) = to_datetime rt2 (cells s)"
      by (simp add: same_coercion_def)
    note d = dates_coerced[OF this]
    show ?thesis
      by (simp only: temporal_check_errors temporal_check_info Some option.case d)
  qed
  then show "errors (temporal_check self rt1 df r) = errors (temporal_check self rt2 df r)"
    and "info (temporal_check self rt1 df r) = info (temporal_check self rt2 df r)"
    by blast+
qed

lemma temporal_check_same_future_count:
  assumes "same_coercion self df rt1 rt2"
    and "future_count_of self df rt1 = future_count_of self df rt2"
  shows "temporal_check self rt1 df r = temporal_check self rt2 df r"
proof (cases "get_column df (date_col_of self)")
  case None
  then show ?thesis by (simp only: temporal_check_def option.case)
next
  case (Some s)
  from assms(1) Some have "to_datetime rt1 (cells s) = to_datetime rt2 (cells s)"
    by (simp add: same_coercion_def)
  note p = dates_coerced[OF this]
  from assms(2) Some have c:
    "length (filter (\<lambda>t. now rt1 < t) (valid_dates_of rt2 (cells s)))
     = length (filter (\<lambda>t. now rt2 < t) (valid_dates_of rt2 (cells s)))"
    by (simp add: future_count_of_def p)
  show ?thesis
  proof (cases "valid_dates_of rt2 (cells s)")
    case Nil
    then show ?thesis by (simp only: temporal_check_def Some option.case p Let_def list.case)
  next
    case (Cons d ds)
    from c Cons have c': "length (filter (\<lambda>t. now rt1 < t) (d # ds))
       = length (filter (\<lambda>t. now rt2 < t) (d # ds))"
      by (simp only:)
    show ?thesis
      by (simp only: temporal_check_def Some option.case p Cons list.case Let_def c')
  qed
qed

lemma quality_coerced:
  assumes "same_coercion self df rt1 rt2"
  shows "(\<exists>e. validate_data_quality self rt1 df = Inl e \<and> validate_data_quality self rt2 df = Inl e)
     \<or> (\<exists>q1 q2. validate_data_quality self rt1 df = Inr q1 \<and> validate_data_quality self rt2 df = Inr q2
           \<and> errors q1 = errors q2 \<and> info q1 = info q2)"
proof (cases "df_empty df")
  case True
  then show ?thesis by (simp add: validate_data_quality_def)
next
  case False
  show ?thesis
  proof (cases "value_range_check df (null_analysis self df new_result)")
    case (Inl e)
    with False show ?thesis by (simp add: validate_data_quality_def and_then_def)
  next
    case (Inr r2)
    with False have "validate_data_quality self rt1 df = Inr (temporal_check self rt1 df r2)"
      and "validate_data_quality self rt2 df = Inr (temporal_check self rt2 df r2)"
      by (simp_all add: validate_data_quality_def and_then_def)
    with temporal_check_coerced[OF assms, of r2] show ?thesis by simp
  qed
qed

lemma quality_coerced_observed:
  assumes "same_coercion self df rt1 rt2"
  shows "map_sum id errors (validate_data_quality self rt1 df)
         = map_sum id errors (validate_data_quality self rt2 df)"
    and "map_sum id info (validate_data_quality self rt1 df)
         = map_sum id info (validate_data_quality self rt2 df)"
    and "map_sum id is_valid (validate_data_quality self rt1 df)
         = map_sum id is_valid (validate_data_quality self rt2 df)"
proof -
  have "map_sum id errors (validate_data_quality self rt1 df)
         = map_sum id errors (validate_data_quality self rt2 df)
     \<and> map_sum id info (validate_data_quality self rt1 df)
         = map_sum id info (validate_data_quality self rt2 df)
     \<and> map_sum id is_valid (validate_data_quality self rt1 df)
         = map_sum id is_valid (validate_data_quality self rt2 df)"
    using quality_coerced[OF assms]
  proof (elim disjE exE conjE)
    fix e
    assume "validate_data_quality self rt1 df = Inl e" "validate_data_quality self rt2 df = Inl e"
    then show ?thesis by simp
  next
    fix q1 q2
    assume q: "validate_data_quality self rt1 df = Inr q1" "validate_data_quality self rt2 df = Inr q2"
      and eq: "errors q1 = errors q2" "info q1 = info q2"
    from consistent_validate_data_quality[OF q(1)] consistent_validate_data_quality[OF q(2)] eq(1)
    have "is_valid q1 = is_valid q2" by (simp add: consistent_def)
    with q eq show ?thesis by simp
  qed
  then show "map_sum id errors (validate_data_quality self rt1 df)
         = map_sum id errors (validate_data_quality self rt2 df)"
    and "map_sum id info (validate_data_quality self rt1 df)
         = map_sum id info (validate_data_quality self rt2 df)"
    and "map_sum id is_valid (validate_data_quality self rt1 df)
         = map_sum id is_valid (validate_data_quality self rt2 df)"
    by blast+
qed

lemma quality_same_future_count:
  assumes "same_coercion self df rt1 rt2"
    and "future_count_of self df rt1 = future_count_of self df rt2"
  shows "validate_data_quality self rt1 df = validate_data_quality self rt2 df"
  by (simp only: validate_data_quality_def temporal_check_same_future_count[OF assms])

lemma validate_all_clock:
  assumes "validate_schema self rt1 df = validate_schema self rt2 df"
    and "(\<exists>e. validate_data_quality self rt1 df = Inl e \<and> validate_data_quality self rt2 df = Inl e)
     \<or> (\<exists>q1 q2. validate_data_quality self rt1 df = Inr q1 \<and> validate_data_quality self rt2 df = Inr q2
           \<and> errors q1 = errors q2 \<and> info q1 = info q2)"
  shows "map_sum id errors (validate_all self rt1 df) = map_sum id errors (validate_all self rt2 df)"
    and "map_sum id info (validate_all self rt1 df) = map_sum id info (validate_all self rt2 df)"
    and "map_sum id is_valid (validate_all self rt1 df) = map_sum id is_valid (validate_all self rt2 df)"
proof -
  have "map_sum id errors (validate_all self rt1 df) = map_sum id errors (validate_all self rt2 df)
    \<and> map_sum id info (validate_all self rt1 df) = map_sum id info (validate_all self rt2 df)
    \<and> map_sum id is_valid (validate_all self rt1 df) = map_sum id is_valid (validate_all self rt2 df)"
  using assms(2)
  proof (elim disjE exE conjE)
    fix e
    assume "validate_data_quality self rt1 df = Inl e" "validate_data_quality self rt2 df = Inl e"
    then show ?thesis by (simp add: validate_all_def and_then_def)
  next
    fix q1 q2
    assume q: "validate_data_quality self rt1 df = Inr q1" "validate_data_quality self rt2 df = Inr q2"
      and eq: "errors q1 = errors q2" "info q1 = info q2"
    show ?thesis
    proof (cases "validate_business_rules self df")
      case (Inl e)
      with q show ?thesis by (simp add: validate_all_def and_then_def)
    next
      case (Inr b)
      from validate_all_Inr[OF q(1) Inr] validate_all_Inr[OF q(2) Inr] eq assms(1)
      show ?thesis by simp
    qed
  qed
  then show "map_sum id errors (validate_all self rt1 df) = map_sum id errors (validate_all self rt2 df)"
    and "map_sum id info (validate_all self rt1 df) = map_sum id info (validate_all self rt2 df)"
    and "map_sum id is_valid (validate_all self rt1 df) = map_sum id is_valid (validate_all self rt2 df)"
    by blast+
qed


section \<open>The claims\<close>

text \<open>
  Claim C1. Whatever \<open>validate_schema\<close>, \<open>validate_data_quality\<close>,
  \<open>validate_business_rules\<close> or \<open>validate_all\<close> returns is valid exactly when its
  error sequence is empty, and \<open>add_error\<close> appends its message and clears the flag.
\<close>

theorem is_valid_iff_no_errors:
  "(is_valid (validate_schema self rt df) \<longleftrightarrow> errors (validate_schema self rt df) = [])
   \<and> (\<forall>r. validate_data_quality self rt df = Inr r \<longrightarrow> (is_valid r \<longleftrightarrow> errors r = []))
   \<and> (\<forall>r. validate_business_rules self df = Inr r \<longrightarrow> (is_valid r \<longleftrightarrow> errors r = []))
   \<and> (\<forall>r. validate_all self rt df = Inr r \<longrightarrow> (is_valid r \<longleftrightarrow> errors r = []))
   \<and> errors (add_error r0 m) = errors r0 @ [m] \<and> \<not> is_valid (add_error r0 m)"
proof -
  have s: "is_valid (validate_schema self rt df) \<longleftrightarrow> errors (validate_schema self rt df) = []"
    using consistent_validate_schema[of self rt df] by (simp add: consistent_def)
  have q: "is_valid r \<longleftrightarrow> errors r = []" if "validate_data_quality self rt df = Inr r" for r
    using consistent_validate_data_quality[OF that] by (simp add: consistent_def)
  have b: "is_valid r \<longleftrightarrow> errors r = []" if "validate_business_rules self df = Inr r" for r
    using consistent_validate_business_rules[OF that] by (simp add: consistent_def)
  have a: "is_valid r \<longleftrightarrow> errors r = []" if "validate_all self rt df = Inr r" for r
  proof -
    from that obtain q b where qb: "validate_data_quality self rt df = Inr q"
      "validate_business_rules self df = Inr b"
      by (rule validate_all_Inr_cases)
    from validate_all_Inr[OF qb] that show ?thesis by auto
  qed
  from s q b a show ?thesis by simp
qed

theorem is_valid_iff_no_errors_witness:
  "(\<exists>r. validate_data_quality normalized_validator example_runtime readings_df = Inr r
        \<and> is_valid r \<and> errors r = [])
   \<and> (\<exists>r. validate_business_rules normalized_validator readings_df = Inr r
        \<and> is_valid r \<and> errors r = [])
   \<and> (\<exists>r. validate_all normalized_validator example_runtime readings_df = Inr r
        \<and> is_valid r \<and> errors r = [])
   \<and> (\<exists>r. validate_data_quality normalized_validator example_runtime zero_rows_df = Inr r
        \<and> \<not> is_valid r \<and> errors r \<noteq> [])"
proof -
  note a = validate_all_Inr[OF readings_quality readings_business]
  have z: "validate_data_quality normalized_validator example_runtime zero_rows_df =
      Inr (add_error new_result (Msg ''Cannot validate quality of empty DataFrame'' []))"
    by (simp add: validate_data_quality_def df_empty_def zero_rows_df_def)
  from is_valid_iff_no_errors[of normalized_validator example_runtime readings_df]
    is_valid_iff_no_errors[of normalized_validator example_runtime zero_rows_df]
    readings_quality readings_business readings_schema a z
  show ?thesis by simp
qed

text \<open>
  Claim C2. When the quality pass and the business pass return, \<open>validate_all\<close> returns
  the errors of the schema, quality and business passes one after the other, their
  warnings likewise, the three info dicts laid over each other with the later pass
  winning on a key, and a flag that says whether the errors put together are none.
\<close>

theorem validate_all_combines:
  assumes "validate_data_quality self rt df = Inr q"
    and "validate_business_rules self df = Inr b"
  shows "\<exists>r. validate_all self rt df = Inr r
     \<and> errors r = errors (validate_schema self rt df) @ errors q @ errors b
     \<and> warnings r = warnings (validate_schema self rt df) @ warnings q @ warnings b
     \<and> map_of (info r) = map_of (info (validate_schema self rt df)) ++ map_of (info q) ++ map_of (info b)
     \<and> (is_valid r \<longleftrightarrow> errors (validate_schema self rt df) @ errors q @ errors b = [])"
proof -
  let ?s = "validate_schema self rt df"
  have ds: "distinct (map fst (info ?s))"
    using consistent_validate_schema[of self rt df] by (simp add: consistent_def)
  have dq: "distinct (map fst (info q))"
    using consistent_validate_data_quality[OF assms(1)] by (simp add: consistent_def)
  have db: "distinct (map fst (info b))"
    using consistent_validate_business_rules[OF assms(2)] by (simp add: consistent_def)
  have "map_of (dict_update (dict_update (dict_update [] (info ?s)) (info q)) (info b))
      = map_of (info ?s) ++ map_of (info q) ++ map_of (info b)"
    by (simp add: map_of_dict_update ds dq db)
  with validate_all_Inr[OF assms] show ?thesis by simp
qed

theorem validate_all_combines_witness:
  "(\<exists>q. validate_data_quality normalized_validator example_runtime readings_df = Inr q)
   \<and> (\<exists>b. validate_business_rules normalized_validator readings_df = Inr b)
   \<and> (\<exists>r. validate_all normalized_validator example_runtime readings_df = Inr r
        \<and> errors r = []
        \<and> warnings r =
            [Msg ''{duplicate_count} duplicate records found (same timestamp + station + parameter)''
               [AInt 1]]
        \<and> map_of (info r) ''row_count'' = Some (IInt 2)
        \<and> map_of (info r) ''value_range'' = Some (IValueRange 7 8)
        \<and> map_of (info r) ''duplicate_count'' = Some (IInt 1)
        \<and> is_valid r)"
  using validate_all_combines[OF readings_quality readings_business]
    readings_quality readings_business readings_schema
  by auto

text \<open>
  Claim C3, as the code has it. Two labels, lowercased, are compatible exactly when they are
  equal, or the expected one is \<open>float64\<close> and the actual one is \<open>float32\<close>, \<open>float64\<close>,
  \<open>int64\<close> or \<open>int32\<close>, or the expected one is \<open>string\<close> and the actual one is
  \<open>object\<close> or \<open>string\<close>, or both contain \<open>datetime\<close>. The predicate is a total
  function of the two labels.
\<close>

theorem dtypes_compatible_cases:
  "dtypes_compatible actual expected \<longleftrightarrow>
     lower actual = lower expected
     \<or> (lower expected = ''float64''
          \<and> lower actual \<in> {''float32'', ''float64'', ''int64'', ''int32''})
     \<or> (lower expected = ''string'' \<and> lower actual \<in> {''object'', ''string''})
     \<or> ((\<exists>u v. lower expected = u @ ''datetime'' @ v)
          \<and> (\<exists>u v. lower actual = u @ ''datetime'' @ v))"
  unfolding dtypes_compatible_def Let_def contains_iff by auto

text \<open>
  As the specification words it, the claim also makes two labels compatible when both contain \<open>timestamp\<close>
  or \<open>datetime\<close>. The dtype of an Arrow-backed timestamp column contains \<open>timestamp\<close>
  and the declared \<open>datetime64[ns]\<close> contains \<open>datetime\<close>, and they are not compatible.
\<close>

theorem dtypes_compatible_timestamp_counterexample:
  "contains ''timestamp'' (lower ''timestamp[ns][pyarrow]'')
   \<and> contains ''datetime'' (lower ''datetime64[ns]'')
   \<and> \<not> dtypes_compatible ''timestamp[ns][pyarrow]'' ''datetime64[ns]''"
  by (simp add: dtypes_compatible_def lower_def lower_char_def)

text \<open>
  Claim C4. In \<open>validate_data_quality\<close>, for a critical column that is present and has
  a null, the one message about its nulls is an error when the nulls are more than 50
  percent of the rows, a warning when they are more than 10 and at most 50 percent, and
  there is no such message otherwise. At exactly 50 percent it is a warning, at exactly
  10 percent there is none.
\<close>

theorem null_percentage_thresholds:
  assumes "rectangular df"
    and "validate_data_quality self rt df = Inr r"
    and "col \<in> set (critical_cols_of self)"
    and "get_column df col = Some s"
    and "0 < isna_sum (cells s)"
  shows "let null_count = isna_sum (cells s);
             pct = (of_nat null_count / of_nat (index_len df)) * 100;
             m = Msg ''Column '{col}' has {null_count:,} null values ({null_pct:.1f}%)''
                   [AStr col, AInt (int null_count), ANum pct]
         in (50 < pct \<longrightarrow>
               filter (null_message_of col) (errors r) = [m]
               \<and> filter (null_message_of col) (warnings r) = [])
          \<and> (10 < pct \<and> pct \<le> 50 \<longrightarrow>
               filter (null_message_of col) (errors r) = []
               \<and> filter (null_message_of col) (warnings r) = [m])
          \<and> (pct \<le> 10 \<longrightarrow>
               filter (null_message_of col) (errors r) = []
               \<and> filter (null_message_of col) (warnings r) = [])"
proof -
  have "isna_sum (cells s) \<le> length (cells s)" by (simp add: isna_sum_def)
  with assms(5) have "0 < length (cells s)" by linarith
  with rectangular_length[OF assms(1,4)] have "index_len df \<noteq> 0" by linarith
  with get_column_not_empty[OF assms(4)] have ne: "\<not> df_empty df" by simp
  show ?thesis
    unfolding Let_def quality_null_errors[OF assms(2) ne assms(3-5)]
      quality_null_warnings[OF assms(2) ne assms(3-5)] null_pct_of_def
    by auto
qed

theorem null_percentage_thresholds_witness:
  "rectangular nulls_df
   \<and> ''value'' \<in> set (critical_cols_of normalized_validator)
   \<and> (\<exists>s. get_column nulls_df ''value'' = Some s \<and> isna_sum (cells s) = 5)
   \<and> index_len nulls_df = 10
   \<and> (\<exists>r. validate_data_quality normalized_validator example_runtime nulls_df = Inr r
        \<and> filter (null_message_of ''value'') (errors r) = []
        \<and> filter (null_message_of ''value'') (warnings r) =
            [Msg ''Column '{col}' has {null_count:,} null values ({null_pct:.1f}%)''
               [AStr ''value'', AInt 5, ANum 50]]
        \<and> filter (null_message_of ''station_id'') (errors r) = []
        \<and> filter (null_message_of ''station_id'') (warnings r) = []
        \<and> filter (null_message_of ''parameter'') (errors r) =
            [Msg ''Column '{col}' has {null_count:,} null values ({null_pct:.1f}%)''
               [AStr ''parameter'', AInt 6, ANum 60]]
        \<and> filter (null_message_of ''parameter'') (warnings r) = [])"
proof -
  let ?s = "\<lparr>dtype = ''float64'', cells =
         [Null, Null, Null, Null, Null, Num 1, Num 2, Num 3, Num 4, Num 5]\<rparr>"
  let ?r = "\<lparr>is_valid = False,
          errors = [Msg ''Column '{col}' has {null_count:,} null values ({null_pct:.1f}%)''
                      [AStr ''parameter'', AInt 6, ANum 60]],
          warnings = [Msg ''Column '{col}' has {null_count:,} null values ({null_pct:.1f}%)''
                        [AStr ''value'', AInt 5, ANum 50]],
          info = [(''null_counts'',
                   INullCounts [(''station_id'', 1, 10), (''parameter'', 6, 60), (''value'', 5, 50)]),
                  (''value_range'', IValueRange 1 5)]\<rparr>"
  have c: "''value'' \<in> set (critical_cols_of normalized_validator)"
    by (simp add: critical_cols_of_def normalized_validator_def)
  have g: "get_column nulls_df ''value'' = Some ?s"
    by (simp add: get_column_def nulls_df_def)
  have k: "isna_sum (cells ?s) = 5"
    by (simp add: isna_sum_def isna_def)
  have p: "0 < isna_sum (cells ?s)"
    by (simp add: isna_sum_def isna_def)
  have n: "index_len nulls_df = 10"
    by (simp add: nulls_df_def)
  from null_percentage_thresholds[OF rectangular_examples(1) nulls_quality c g p]
  have v: "filter (null_message_of ''value'') (errors ?r) = []
      \<and> filter (null_message_of ''value'') (warnings ?r) =
            [Msg ''Column '{col}' has {null_count:,} null values ({null_pct:.1f}%)''
               [AStr ''value'', AInt 5, ANum 50]]"
    unfolding Let_def k n by simp
  have o: "filter (null_message_of ''station_id'') (errors ?r) = []
      \<and> filter (null_message_of ''station_id'') (warnings ?r) = []
      \<and> filter (null_message_of ''parameter'') (errors ?r) =
            [Msg ''Column '{col}' has {null_count:,} null values ({null_pct:.1f}%)''
               [AStr ''parameter'', AInt 6, ANum 60]]
      \<and> filter (null_message_of ''parameter'') (warnings ?r) = []"
    by (simp add: null_message_of_def)
  from g k have "\<exists>s. get_column nulls_df ''value'' = Some s \<and> isna_sum (cells s) = 5"
    by blast
  moreover from nulls_quality v o
  have "\<exists>r. validate_data_quality normalized_validator example_runtime nulls_df = Inr r
        \<and> filter (null_message_of ''value'') (errors r) = []
        \<and> filter (null_message_of ''value'') (warnings r) =
            [Msg ''Column '{col}' has {null_count:,} null values ({null_pct:.1f}%)''
               [AStr ''value'', AInt 5, ANum 50]]
        \<and> filter (null_message_of ''station_id'') (errors r) = []
        \<and> filter (null_message_of ''station_id'') (warnings r) = []
        \<and> filter (null_message_of ''parameter'') (errors r) =
            [Msg ''Column '{col}' has {null_count:,} null values ({null_pct:.1f}%)''
               [AStr ''parameter'', AInt 6, ANum 60]]
        \<and> filter (null_message_of ''parameter'') (warnings r) = []"
    by blast
  ultimately show ?thesis
    using rectangular_examples(1) c n by blast
qed

text \<open>
  Claim C5. In \<open>validate_data_quality\<close>, when some entry of the date column parses, the
  message about dates before 1900 is a warning, never an error, and is there exactly when
  the earliest parsed year is below 1900; the message about dates after 2100 is an error,
  never a warning, and is there exactly when the latest parsed year is above 2100. One
  table can have both.
\<close>

theorem year_bounds:
  assumes "rectangular df"
    and "validate_data_quality self rt df = Inr r"
    and "get_column df (date_col_of self) = Some s"
    and "valid_dates_of rt (cells s) \<noteq> []"
  shows "let years = year ` set (valid_dates_of rt (cells s));
             earliest = Min years;
             latest = Max years
         in (earliest < 1900 \<longleftrightarrow>
               Msg ''Dates before {self.constraints.MIN_YEAR} found (earliest: {min_date.year})''
                 [AInt 1900, AInt earliest] \<in> set (warnings r))
          \<and> (\<forall>m \<in> set (errors r).
               template m \<noteq> ''Dates before {self.constraints.MIN_YEAR} found (earliest: {min_date.year})'')
          \<and> (2100 < latest \<longleftrightarrow>
               Msg ''Dates after {self.constraints.MAX_YEAR} found (latest: {max_date.year})''
                 [AInt 2100, AInt latest] \<in> set (errors r))
          \<and> (\<forall>m \<in> set (warnings r).
               template m \<noteq> ''Dates after {self.constraints.MAX_YEAR} found (latest: {max_date.year})'')"
proof -
  note ne = rows_of_valid_dates[OF assms(1,3,4)]
  from assms(4) obtain d ds where v: "valid_dates_of rt (cells s) = d # ds"
    by (cases "valid_dates_of rt (cells s)") auto
  note nt = null_templates_of_quality[of self df]
  have e: "errors r = errors (null_analysis self df new_result) @
      (if 0 < invalid_dates_of rt (cells s)
       then [Msg ''{invalid_dates} datetime values could not be parsed''
               [AInt (invalid_dates_of rt (cells s))]]
       else []) @
      (if 2100 < Max (year ` set (d # ds))
       then [Msg ''Dates after {self.constraints.MAX_YEAR} found (latest: {max_date.year})''
               [AInt 2100, AInt (Max (year ` set (d # ds)))]]
       else [])"
    unfolding quality_errors_split[OF assms(2) ne]
    by (simp only: assms(3) v option.case list.case year_fold_max MAX_YEAR_def)
  from quality_warnings_split[OF assms(2) ne] obtain ws
    where w: "warnings r = warnings (null_analysis self df new_result) @ ws @
      (if Min (year ` set (d # ds)) < 1900
       then [Msg ''Dates before {self.constraints.MIN_YEAR} found (earliest: {min_date.year})''
               [AInt 1900, AInt (Min (year ` set (d # ds)))]]
       else []) @
      (if 0 < length (filter (\<lambda>t. now rt < t) (d # ds))
       then [Msg ''{future_count} timestamps are in the future''
               [AInt (int (length (filter (\<lambda>t. now rt < t) (d # ds))))]]
       else [])"
      and ws: "\<forall>m \<in> set ws. template m \<in>
           {''{count} values below minimum threshold ({self.constraints.MIN_VALUE})'',
            ''{count} values above maximum threshold ({self.constraints.MAX_VALUE})''}"
    by (simp only: assms(3) v option.case list.case year_fold_min MIN_YEAR_def) blast
  have nw: "m0 \<notin> set (warnings (null_analysis self df new_result))"
    and ne': "m0 \<notin> set (errors (null_analysis self df new_result))"
    if "template m0 \<noteq> ''Column '{col}' has {null_count:,} null values ({null_pct:.1f}%)''" for m0
    using nt that by blast+
  have nws: "m0 \<notin> set ws"
    if "template m0 \<notin>
           {''{count} values below minimum threshold ({self.constraints.MIN_VALUE})'',
            ''{count} values above maximum threshold ({self.constraints.MAX_VALUE})''}" for m0
    using ws that by blast
  have 1: "(Min (year ` set (d # ds)) < 1900 \<longleftrightarrow>
       Msg ''Dates before {self.constraints.MIN_YEAR} found (earliest: {min_date.year})''
         [AInt 1900, AInt (Min (year ` set (d # ds)))] \<in> set (warnings r))"
    unfolding w by (simp add: nw nws del: set_simps image_insert)
  have 2: "template m \<noteq> ''Dates before {self.constraints.MIN_YEAR} found (earliest: {min_date.year})''"
    if "m \<in> set (errors r)" for m
  proof
    assume t: "template m = ''Dates before {self.constraints.MIN_YEAR} found (earliest: {min_date.year})''"
    then have "m \<notin> set (errors (null_analysis self df new_result))" by (intro ne') simp
    with that t show False unfolding e by (auto split: if_splits)
  qed
  have 3: "(2100 < Max (year ` set (d # ds)) \<longleftrightarrow>
       Msg ''Dates after {self.constraints.MAX_YEAR} found (latest: {max_date.year})''
         [AInt 2100, AInt (Max (year ` set (d # ds)))] \<in> set (errors r))"
    unfolding e by (simp add: ne' del: set_simps image_insert)
  have 4: "template m \<noteq> ''Dates after {self.constraints.MAX_YEAR} found (latest: {max_date.year})''"
    if "m \<in> set (warnings r)" for m
  proof
    assume t: "template m = ''Dates after {self.constraints.MAX_YEAR} found (latest: {max_date.year})''"
    then have "m \<notin> set (warnings (null_analysis self df new_result))" by (intro nw) simp
    moreover from t have "m \<notin> set ws" by (intro nws) simp
    ultimately show False using that t unfolding w by (auto split: if_splits)
  qed
  from 1 2 3 4 show ?thesis
    unfolding Let_def v by blast
qed

theorem year_bounds_witness:
  "rectangular dates_df
   \<and> (\<exists>s. get_column dates_df (date_col_of normalized_validator) = Some s
        \<and> valid_dates_of example_runtime (cells s) = [(1899, 0), (2101, 0)])
   \<and> (\<exists>r. validate_data_quality normalized_validator example_runtime dates_df = Inr r
        \<and> Msg ''Dates before {self.constraints.MIN_YEAR} found (earliest: {min_date.year})''
             [AInt 1900, AInt 1899] \<in> set (warnings r)
        \<and> Msg ''Dates after {self.constraints.MAX_YEAR} found (latest: {max_date.year})''
             [AInt 2100, AInt 2101] \<in> set (errors r))"
proof -
  let ?s = "\<lparr>dtype = ''object'', cells =
         [Time (1899, 0), Null, Str ''not a date'', Time (2101, 0)]\<rparr>"
  have g: "get_column dates_df (date_col_of normalized_validator) = Some ?s"
    by (simp add: get_column_def dates_df_def date_col_of_def normalized_validator_def)
  have v: "valid_dates_of example_runtime (cells ?s) = [(1899, 0), (2101, 0)]"
    by (simp add: valid_dates_of_def to_datetime_def List.map_filter_def example_runtime_def)
  have ne: "valid_dates_of example_runtime (cells ?s) \<noteq> []"
    by (simp add: valid_dates_of_def to_datetime_def List.map_filter_def example_runtime_def)
  from year_bounds[OF rectangular_examples(2) dates_quality g ne]
  show ?thesis
    unfolding Let_def v using rectangular_examples(2) g v dates_quality
    by (simp add: year_def)
qed

text \<open>
  Claim C6. In \<open>validate_data_quality\<close>, when the date column is present, the count of
  invalid dates is the number of nulls after coercion minus the number of nulls before
  it, which is the number of entries that were not null and did not parse; the error
  about unparsed dates is there exactly when the count is positive, and carries it.
\<close>

theorem invalid_dates_error:
  assumes "rectangular df"
    and "validate_data_quality self rt df = Inr r"
    and "get_column df (date_col_of self) = Some s"
  shows "let xs = cells s;
             coerced = to_datetime rt xs;
             invalid_dates = int (length (filter (\<lambda>d. d = None) coerced))
                              - int (length (filter (\<lambda>c. c = Null) xs))
         in invalid_dates_of rt xs = invalid_dates
          \<and> invalid_dates = int (length (filter (\<lambda>(c, d). c \<noteq> Null \<and> d = None) (zip xs coerced)))
          \<and> (0 < invalid_dates \<longleftrightarrow>
               Msg ''{invalid_dates} datetime values could not be parsed'' [AInt invalid_dates]
                 \<in> set (errors r))
          \<and> (\<forall>m \<in> set (errors r).
               template m = ''{invalid_dates} datetime values could not be parsed'' \<longrightarrow>
               m = Msg ''{invalid_dates} datetime values could not be parsed'' [AInt invalid_dates])"
proof -
  let ?n = "int (length (filter (\<lambda>d. d = None) (to_datetime rt (cells s))))
              - int (length (filter (\<lambda>c. c = Null) (cells s)))"
  have a: "invalid_dates_of rt (cells s) = ?n"
    by (simp add: invalid_dates_of_def isna_sum_def isna_def[abs_def])
  have b: "?n = int (length (filter (\<lambda>(c, d). c \<noteq> Null \<and> d = None)
                (zip (cells s) (to_datetime rt (cells s)))))"
    unfolding to_datetime_def by (rule count_failures) simp
  have c: "(0 < ?n \<longleftrightarrow>
       Msg ''{invalid_dates} datetime values could not be parsed'' [AInt ?n] \<in> set (errors r))
     \<and> (\<forall>m \<in> set (errors r).
          template m = ''{invalid_dates} datetime values could not be parsed'' \<longrightarrow>
          m = Msg ''{invalid_dates} datetime values could not be parsed'' [AInt ?n])"
  proof (cases "df_empty df")
    case True
    with get_column_not_empty[OF assms(3)] have "index_len df = 0" by simp
    with rectangular_length[OF assms(1,3)] have "cells s = []" by simp
    then have z: "?n = 0" by (simp add: to_datetime_def)
    from True assms(2) have "errors r = [Msg ''Cannot validate quality of empty DataFrame'' []]"
      by (auto simp: validate_data_quality_def)
    with z show ?thesis by simp
  next
    case False
    note nt = null_templates_of_quality[of self df]
    have ne': "m0 \<notin> set (errors (null_analysis self df new_result))"
      if "template m0 \<noteq> ''Column '{col}' has {null_count:,} null values ({null_pct:.1f}%)''" for m0
      using nt that by blast
    have e: "errors r = errors (null_analysis self df new_result) @
        (if 0 < ?n
         then [Msg ''{invalid_dates} datetime values could not be parsed'' [AInt ?n]]
         else []) @
        (case valid_dates_of rt (cells s) of
           [] \<Rightarrow> []
         | d # ds \<Rightarrow>
             if MAX_YEAR < year (fold max ds d)
             then [Msg ''Dates after {self.constraints.MAX_YEAR} found (latest: {max_date.year})''
                     [AInt MAX_YEAR, AInt (year (fold max ds d))]]
             else [])"
      unfolding quality_errors_split[OF assms(2) False]
      by (simp only: assms(3) option.case a)
    have 1: "(0 < ?n \<longleftrightarrow>
       Msg ''{invalid_dates} datetime values could not be parsed'' [AInt ?n] \<in> set (errors r))"
      unfolding e by (simp add: ne' split: list.splits)
    have 2: "m = Msg ''{invalid_dates} datetime values could not be parsed'' [AInt ?n]"
      if "m \<in> set (errors r)"
        and t: "template m = ''{invalid_dates} datetime values could not be parsed''" for m
    proof -
      from t have "m \<notin> set (errors (null_analysis self df new_result))" by (intro ne') simp
      with that show ?thesis unfolding e by (auto split: if_splits list.splits)
    qed
    from 1 2 show ?thesis by blast
  qed
  from a b c show ?thesis unfolding Let_def by blast
qed

theorem invalid_dates_error_witness:
  "rectangular dates_df
   \<and> (\<exists>s. get_column dates_df (date_col_of normalized_validator) = Some s
        \<and> cells s = [Time (1899, 0), Null, Str ''not a date'', Time (2101, 0)]
        \<and> to_datetime example_runtime (cells s) = [Some (1899, 0), None, None, Some (2101, 0)])
   \<and> (\<exists>r. validate_data_quality normalized_validator example_runtime dates_df = Inr r
        \<and> Msg ''{invalid_dates} datetime values could not be parsed'' [AInt 1] \<in> set (errors r))"
proof -
  let ?s = "\<lparr>dtype = ''object'', cells =
         [Time (1899, 0), Null, Str ''not a date'', Time (2101, 0)]\<rparr>"
  have g: "get_column dates_df (date_col_of normalized_validator) = Some ?s"
    by (simp add: get_column_def dates_df_def date_col_of_def normalized_validator_def)
  have t: "to_datetime example_runtime (cells ?s) = [Some (1899, 0), None, None, Some (2101, 0)]"
    by (simp add: to_datetime_def example_runtime_def)
  from invalid_dates_error[OF rectangular_examples(2) dates_quality g]
  show ?thesis
    unfolding Let_def t using rectangular_examples(2) g t dates_quality
    by simp
qed

text \<open>
  Claim C7. In \<open>validate_business_rules\<close>, when the three key columns are present, the
  duplicate count is the number of rows whose key is the key of an earlier row. When it
  is positive there is one warning with it, never an error, and it is recorded under
  \<open>duplicate_count\<close>; when it is zero there is neither. Two rows with one key count 1.
\<close>

theorem duplicate_count_semantics:
  assumes "rectangular df"
    and "validate_business_rules self df = Inr r"
    and "list_all (has_column df) (id_cols_of self)"
  shows "let keys = row_keys df (id_cols_of self);
             n = card {i. i < length keys \<and> (\<exists>j<i. keys ! j = keys ! i)}
         in duplicate_count_of df (id_cols_of self) = n
          \<and> (0 < n \<longrightarrow>
               filter (\<lambda>m. template m =
                   ''{duplicate_count} duplicate records found (same timestamp + station + parameter)'')
                 (warnings r) =
                 [Msg ''{duplicate_count} duplicate records found (same timestamp + station + parameter)''
                    [AInt (int n)]]
               \<and> map_of (info r) ''duplicate_count'' = Some (IInt (int n)))
          \<and> (n = 0 \<longrightarrow>
               filter (\<lambda>m. template m =
                   ''{duplicate_count} duplicate records found (same timestamp + station + parameter)'')
                 (warnings r) = []
               \<and> map_of (info r) ''duplicate_count'' = None)
          \<and> (\<forall>m \<in> set (errors r). template m \<noteq>
               ''{duplicate_count} duplicate records found (same timestamp + station + parameter)'')"
proof -
  let ?keys = "row_keys df (id_cols_of self)"
  let ?n = "card {i. i < length ?keys \<and> (\<exists>j<i. ?keys ! j = ?keys ! i)}"
  let ?T = "''{duplicate_count} duplicate records found (same timestamp + station + parameter)''"
  have n: "duplicate_count_of df (id_cols_of self) = ?n"
    by (simp add: duplicate_count_of_def duplicated_count)
  have rest: "(0 < ?n \<longrightarrow>
        filter (\<lambda>m. template m = ?T) (warnings r) = [Msg ?T [AInt (int ?n)]]
        \<and> map_of (info r) ''duplicate_count'' = Some (IInt (int ?n)))
      \<and> (?n = 0 \<longrightarrow>
        filter (\<lambda>m. template m = ?T) (warnings r) = []
        \<and> map_of (info r) ''duplicate_count'' = None)
      \<and> (\<forall>m \<in> set (errors r). template m \<noteq> ?T)"
  proof (cases "df_empty df")
    case True
    from assms(3) have "columns df \<noteq> []"
      by (auto simp: id_cols_of_def has_column_def column_names_def split: if_splits)
    with True have z: "index_len df = 0" by (simp add: df_empty_def)
    from row_keys_no_rows[OF assms(1) z] have "?n = 0" by simp
    moreover from True assms(2) have "r = new_result"
      by (simp add: validate_business_rules_def)
    ultimately show ?thesis by simp
  next
    case False
    note b = business_after_duplicates[OF assms(2) False]
    from b(1) obtain ws
      where w: "warnings r = warnings (duplicate_check self df new_result) @ ws"
        and t: "\<forall>m \<in> set ws. template m \<in>
           {''Station IDs exceed max length ({max_len} > {self.constraints.MAX_STATION_ID_LENGTH})'',
            ''Unknown qualifier codes found: {', '.join(map(str, invalid_quals))}'',
            ''Unknown QA status codes found: {', '.join(map(str, invalid_qa))}''}"
      by blast
    have f: "filter (\<lambda>m. template m = ?T) ws = []"
      by (rule filter_templates_empty) (use t in auto)
    have "errors (duplicate_check self df new_result) = []"
      by (simp add: duplicate_check_def Let_def)
    with b(2) have "\<forall>m \<in> set (errors r).
        template m \<in> {''No unique stations found'', ''No unique parameters found''}"
      by simp
    then have e: "\<forall>m \<in> set (errors r). template m \<noteq> ?T"
      by auto
    show ?thesis
      unfolding w filter_append f b(3) duplicate_check_new n[symmetric]
      using assms(3) e by simp
  qed
  from n rest show ?thesis unfolding Let_def by blast
qed

theorem duplicate_count_semantics_witness:
  "rectangular readings_df
   \<and> list_all (has_column readings_df) (id_cols_of normalized_validator)
   \<and> row_keys readings_df (id_cols_of normalized_validator) =
       [[Time (2020, 0), Str ''ST01'', Str ''PH''], [Time (2020, 0), Str ''ST01'', Str ''PH'']]
   \<and> card {i. i < length (row_keys readings_df (id_cols_of normalized_validator))
              \<and> (\<exists>j<i. row_keys readings_df (id_cols_of normalized_validator) ! j
                          = row_keys readings_df (id_cols_of normalized_validator) ! i)} = 1
   \<and> (\<exists>r. validate_business_rules normalized_validator readings_df = Inr r
        \<and> errors r = []
        \<and> Msg ''{duplicate_count} duplicate records found (same timestamp + station + parameter)''
             [AInt 1] \<in> set (warnings r)
        \<and> map_of (info r) ''duplicate_count'' = Some (IInt 1))"
proof -
  have h: "list_all (has_column readings_df) (id_cols_of normalized_validator)"
    by (simp add: has_column_def column_names_def readings_df_def id_cols_of_def normalized_validator_def)
  have k: "row_keys readings_df (id_cols_of normalized_validator) =
       [[Time (2020, 0), Str ''ST01'', Str ''PH''], [Time (2020, 0), Str ''ST01'', Str ''PH'']]"
    by (simp add: row_keys_def get_column_def readings_df_def id_cols_of_def normalized_validator_def)
  have d: "duplicate_count_of readings_df (id_cols_of normalized_validator) = 1"
    by (simp add: duplicate_count_of_def duplicated_def k)
  from duplicate_count_semantics[OF rectangular_examples(3) readings_business h]
  have "card {i. i < length (row_keys readings_df (id_cols_of normalized_validator))
              \<and> (\<exists>j<i. row_keys readings_df (id_cols_of normalized_validator) ! j
                          = row_keys readings_df (id_cols_of normalized_validator) ! i)} = 1"
    unfolding Let_def d by simp
  with rectangular_examples(3) h k readings_business show ?thesis by simp
qed

text \<open>
  Claim C8, as the code has it. On a table without rows, whatever its columns, \<open>validate_schema\<close>
  returns at once an invalid result with the one error \<open>DataFrame is empty (0 rows)\<close>,
  no warning and an empty info dict.
\<close>

theorem validate_schema_zero_rows:
  "index_len df = 0 \<Longrightarrow>
     validate_schema self rt df =
       \<lparr>is_valid = False, errors = [Msg ''DataFrame is empty (0 rows)'' []],
        warnings = [], info = []\<rparr>"
  by (simp add: validate_schema_def df_empty_def result_defs)

theorem validate_schema_zero_rows_witness:
  "index_len zero_rows_df = 0
   \<and> validate_schema normalized_validator example_runtime zero_rows_df =
       \<lparr>is_valid = False, errors = [Msg ''DataFrame is empty (0 rows)'' []],
        warnings = [], info = []\<rparr>"
proof -
  have z: "index_len zero_rows_df = 0" by (simp add: zero_rows_df_def)
  from z validate_schema_zero_rows[OF z] show ?thesis by simp
qed

text \<open>The text of that error is not \<open>table is empty (0 rows)\<close>.\<close>

theorem validate_schema_message_counterexample:
  "index_len zero_rows_df = 0
   \<and> errors (validate_schema normalized_validator example_runtime zero_rows_df)
       \<noteq> [Msg ''table is empty (0 rows)'' []]"
  by (simp add: zero_rows_df_def validate_schema_def df_empty_def result_defs)

text \<open>
  Claim C9, as the code has it. On one table with one variant, two invocations of
  \<open>validate_business_rules\<close> have the same outcome, and two invocations of
  \<open>validate_schema\<close> that iterate over sets in the same order return the same result.
  Two invocations of \<open>validate_data_quality\<close> that coerce the date column alike have the
  same errors, the same info and the same validity, and the same result when moreover
  the same number of parsed dates lie after the clock reading of each. So have two
  invocations of \<open>validate_all\<close> that iterate over sets in the same order and coerce
  the date column alike.
\<close>

theorem invocations_agree:
  "invoke BusinessPass self rt1 df = invoke BusinessPass self rt2 df
   \<and> (set_iteration rt1 = set_iteration rt2 \<longrightarrow>
        invoke SchemaPass self rt1 df = invoke SchemaPass self rt2 df)
   \<and> (same_coercion self df rt1 rt2 \<longrightarrow>
        map_sum id errors (invoke QualityPass self rt1 df)
          = map_sum id errors (invoke QualityPass self rt2 df)
        \<and> map_sum id info (invoke QualityPass self rt1 df)
          = map_sum id info (invoke QualityPass self rt2 df)
        \<and> map_sum id is_valid (invoke QualityPass self rt1 df)
          = map_sum id is_valid (invoke QualityPass self rt2 df)
        \<and> (future_count_of self df rt1 = future_count_of self df rt2 \<longrightarrow>
             invoke QualityPass self rt1 df = invoke QualityPass self rt2 df))
   \<and> (set_iteration rt1 = set_iteration rt2 \<and> same_coercion self df rt1 rt2 \<longrightarrow>
        map_sum id errors (invoke AllPasses self rt1 df)
          = map_sum id errors (invoke AllPasses self rt2 df)
        \<and> map_sum id info (invoke AllPasses self rt1 df)
          = map_sum id info (invoke AllPasses self rt2 df)
        \<and> map_sum id is_valid (invoke AllPasses self rt1 df)
          = map_sum id is_valid (invoke AllPasses self rt2 df)
        \<and> (future_count_of self df rt1 = future_count_of self df rt2 \<longrightarrow>
             invoke AllPasses self rt1 df = invoke AllPasses self rt2 df))"
proof -
  have b: "invoke BusinessPass self rt1 df = invoke BusinessPass self rt2 df"
    by (simp add: invoke_def)
  have s: "invoke SchemaPass self rt1 df = invoke SchemaPass self rt2 df"
    if "set_iteration rt1 = set_iteration rt2"
    using validate_schema_runtime[OF that, of self df] by (simp add: invoke_def)
  have q: "map_sum id errors (invoke QualityPass self rt1 df)
          = map_sum id errors (invoke QualityPass self rt2 df)
        \<and> map_sum id info (invoke QualityPass self rt1 df)
          = map_sum id info (invoke QualityPass self rt2 df)
        \<and> map_sum id is_valid (invoke QualityPass self rt1 df)
          = map_sum id is_valid (invoke QualityPass self rt2 df)
        \<and> (future_count_of self df rt1 = future_count_of self df rt2 \<longrightarrow>
             invoke QualityPass self rt1 df = invoke QualityPass self rt2 df)"
    if c: "same_coercion self df rt1 rt2"
    using quality_coerced_observed[OF c] quality_same_future_count[OF c]
    by (simp add: invoke_def)
  have a: "map_sum id errors (invoke AllPasses self rt1 df)
          = map_sum id errors (invoke AllPasses self rt2 df)
        \<and> map_sum id info (invoke AllPasses self rt1 df)
          = map_sum id info (invoke AllPasses self rt2 df)
        \<and> map_sum id is_valid (invoke AllPasses self rt1 df)
          = map_sum id is_valid (invoke AllPasses self rt2 df)
        \<and> (future_count_of self df rt1 = future_count_of self df rt2 \<longrightarrow>
             invoke AllPasses self rt1 df = invoke AllPasses self rt2 df)"
    if i: "set_iteration rt1 = set_iteration rt2" and c: "same_coercion self df rt1 rt2"
  proof -
    note vs = validate_schema_runtime[OF i, of self df]
    note o = validate_all_clock[OF vs quality_coerced[OF c]]
    have "validate_all self rt1 df = validate_all self rt2 df"
      if "future_count_of self df rt1 = future_count_of self df rt2"
      using quality_same_future_count[OF c that] by (simp only: validate_all_def vs)
    with o show ?thesis by (simp add: invoke_def)
  qed
  from b s q a show ?thesis by blast
qed

theorem invocations_agree_witness:
  "set_iteration example_runtime = set_iteration later_runtime
   \<and> same_coercion normalized_validator readings_df example_runtime later_runtime
   \<and> now example_runtime \<noteq> now later_runtime
   \<and> future_count_of normalized_validator readings_df example_runtime = 0
   \<and> future_count_of normalized_validator readings_df later_runtime = 0
   \<and> invoke SchemaPass normalized_validator example_runtime readings_df
       = invoke SchemaPass normalized_validator later_runtime readings_df
   \<and> invoke QualityPass normalized_validator example_runtime readings_df
       = invoke QualityPass normalized_validator later_runtime readings_df
   \<and> invoke AllPasses normalized_validator example_runtime readings_df
       = invoke AllPasses normalized_validator later_runtime readings_df"
proof -
  have 1: "set_iteration example_runtime = set_iteration later_runtime"
    and 3: "now example_runtime \<noteq> now later_runtime"
    by (simp_all add: later_runtime_def example_runtime_def)
  have p: "parse_datetime example_runtime = parse_datetime later_runtime"
    by (simp add: later_runtime_def example_runtime_def)
  have 2: "same_coercion normalized_validator readings_df example_runtime later_runtime"
    by (simp add: same_coercion_def to_datetime_parse[OF p])
  have 4: "future_count_of normalized_validator readings_df example_runtime = 0"
    and 5: "future_count_of normalized_validator readings_df later_runtime = 0"
    by (simp_all add: future_count_of_def get_column_def readings_df_def date_col_of_def
        normalized_validator_def valid_dates_of_def to_datetime_def List.map_filter_def
        later_runtime_def example_runtime_def)
  from invocations_agree[of normalized_validator example_runtime readings_df later_runtime]
    1 2 4 5
  have "invoke SchemaPass normalized_validator example_runtime readings_df
       = invoke SchemaPass normalized_validator later_runtime readings_df
   \<and> invoke QualityPass normalized_validator example_runtime readings_df
       = invoke QualityPass normalized_validator later_runtime readings_df
   \<and> invoke AllPasses normalized_validator example_runtime readings_df
       = invoke AllPasses normalized_validator later_runtime readings_df"
    by simp
  with 1 2 3 4 5 show ?thesis by blast
qed

text \<open>
  With the same order of iteration and the same parser, the clock alone makes two
  invocations differ: a reading dated 2030 is in the future for an invocation in 2026 and
  not for one in 2031, and only the first gets the warning.
\<close>

theorem clock_counterexample:
  "set_iteration example_runtime = set_iteration later_runtime
   \<and> parse_datetime example_runtime = parse_datetime later_runtime
   \<and> validate_data_quality normalized_validator example_runtime future_df
     \<noteq> validate_data_quality normalized_validator later_runtime future_df
   \<and> validate_all normalized_validator example_runtime future_df
     \<noteq> validate_all normalized_validator later_runtime future_df"
proof -
  have 1: "set_iteration example_runtime = set_iteration later_runtime"
    and 2: "parse_datetime example_runtime = parse_datetime later_runtime"
    by (simp_all add: later_runtime_def example_runtime_def)
  have 3: "validate_data_quality normalized_validator example_runtime future_df
     \<noteq> validate_data_quality normalized_validator later_runtime future_df"
    by (simp add: future_quality_now future_quality_later)
  have 4: "validate_all normalized_validator example_runtime future_df
     \<noteq> validate_all normalized_validator later_runtime future_df"
    by (simp add: validate_all_Inr[OF future_quality_now future_business]
        validate_all_Inr[OF future_quality_later future_business] future_schema)
  from 1 2 3 4 show ?thesis by blast
qed

text \<open>
  Claim C10. On a table without rows \<open>validate_data_quality\<close> returns an invalid result
  with its own error and nothing else, and \<open>validate_business_rules\<close> returns a valid
  result with no error, no warning and an empty info dict: the two passes differ there.
\<close>

theorem zero_rows_other_passes:
  "index_len df = 0 \<Longrightarrow>
     validate_data_quality self rt df =
       Inr \<lparr>is_valid = False, errors = [Msg ''Cannot validate quality of empty DataFrame'' []],
            warnings = [], info = []\<rparr>
     \<and> validate_business_rules self df =
       Inr \<lparr>is_valid = True, errors = [], warnings = [], info = []\<rparr>
     \<and> validate_data_quality self rt df \<noteq> validate_business_rules self df"
  by (simp add: validate_data_quality_def validate_business_rules_def df_empty_def result_defs)

theorem zero_rows_other_passes_witness:
  "index_len zero_rows_df = 0
   \<and> validate_data_quality normalized_validator example_runtime zero_rows_df =
       Inr \<lparr>is_valid = False, errors = [Msg ''Cannot validate quality of empty DataFrame'' []],
            warnings = [], info = []\<rparr>
   \<and> validate_business_rules normalized_validator zero_rows_df =
       Inr \<lparr>is_valid = True, errors = [], warnings = [], info = []\<rparr>"
proof -
  have z: "index_len zero_rows_df = 0" by (simp add: zero_rows_df_def)
  from z zero_rows_other_passes[OF z] show ?thesis by simp
qed

end
